theory Spec2Isabelle
  imports Complex_Main "HOL-Library.Word"
begin

unbundle bit_operations_syntax

section \<open>Errors\<close>

text \<open>
  Every \<^verbatim>\<open>throw\<close> of the TypeScript sources and every exception of a JavaScript builtin
  they call is a value of this type; a function that can throw returns \<open>error + 'a\<close>
  with \<open>Inl\<close> for the exception.
\<close>

datatype error =
    InvalidOrderType        \<comment> \<open>\<^verbatim>\<open>new Error('Invalid order type')\<close>\<close>
  | FloatToWireRounding     \<comment> \<open>\<^verbatim>\<open>new Error(`floatToWire causes rounding: ${x}`)\<close>\<close>
  | FloatToIntRounding      \<comment> \<open>\<^verbatim>\<open>new Error(`floatToInt causes rounding: ${x}`)\<close>\<close>
  | UnknownAsset string     \<comment> \<open>\<^verbatim>\<open>new Error(`Unknown asset: ${symbol}`)\<close>\<close>
  | UnsupportedWallet       \<comment> \<open>\<^verbatim>\<open>new Error('Unsupported wallet for signing typed data')\<close>\<close>
  | RangeError              \<comment> \<open>thrown by \<^verbatim>\<open>BigInt(number)\<close>, \<^verbatim>\<open>TypedArray.set\<close> and the \<^verbatim>\<open>DataView\<close> setters\<close>
  | LibraryError string     \<comment> \<open>an exception of an imported package (msgpack, ethers, the signer)\<close>

definition bind_err :: "error + 'a \<Rightarrow> ('a \<Rightarrow> error + 'b) \<Rightarrow> error + 'b" where
  "bind_err r f = (case r of Inl e \<Rightarrow> Inl e | Inr v \<Rightarrow> f v)"

section \<open>JavaScript numbers\<close>

text \<open>
  A JavaScript \<^verbatim>\<open>number\<close> is an IEEE 754 binary64 value: NaN, an infinity with its sign,
  or a finite value, here the sign bit and the exact magnitude as a real number
  (\<open>JFin True 0\<close> is \<^verbatim>\<open>-0\<close>).  Arithmetic computes the exact result and rounds it to
  the nearest binary64 value, ties to even.
\<close>

datatype jsnum = JNaN | JInf bool | JFin bool real

fun bitlen :: "nat \<Rightarrow> nat" where
  "bitlen n = (if n = 0 then 0 else Suc (bitlen (n div 2)))"

declare bitlen.simps [simp del]

definition pow2 :: "int \<Rightarrow> real" where
  "pow2 e = (if 0 \<le> e then 2 ^ nat e else 1 / 2 ^ nat (- e))"

definition pow10 :: "int \<Rightarrow> real" where
  "pow10 e = (if 0 \<le> e then 10 ^ nat e else 1 / 10 ^ nat (- e))"

text \<open>The binary exponent of a positive real: \<open>2 ^ ilog2 q \<le> q < 2 ^ (ilog2 q + 1)\<close>.\<close>

definition ilog2 :: "real \<Rightarrow> int" where
  "ilog2 q = (if 1 \<le> q then int (bitlen (nat \<lfloor>q\<rfloor>)) - 1
              else - int (bitlen (nat (\<lceil>1 / q\<rceil> - 1))))"

definition round_half_even :: "real \<Rightarrow> int" where
  "round_half_even t =
     (let f = \<lfloor>t\<rfloor>; d = t - of_int f
      in if d < 1 / 2 then f else if 1 / 2 < d then f + 1
         else if even f then f else f + 1)"

text \<open>
  Rounding of a magnitude \<open>q \<ge> 0\<close> to binary64: 53 significant bits, the least
  exponent of a subnormal is \<open>-1074\<close>, and a result of \<open>2 ^ 1024\<close> or more overflows
  to the infinity of the sign.
\<close>

definition round_double :: "bool \<Rightarrow> real \<Rightarrow> jsnum" where
  "round_double neg q =
     (if q = 0 then JFin neg 0
      else let ex = max (ilog2 q - 52) (- 1074);
               r = of_int (round_half_even (q / pow2 ex)) * pow2 ex
           in if 2 ^ 1024 \<le> r then JInf neg else JFin neg r)"

definition signed :: "bool \<Rightarrow> real \<Rightarrow> real" where
  "signed neg m = (if neg then - m else m)"

text \<open>A decimal literal of the source text, such as \<^verbatim>\<open>1e-12\<close>, denotes its rounding.\<close>

definition js_lit :: "real \<Rightarrow> jsnum" where
  "js_lit q = round_double (q < 0) \<bar>q\<bar>"

text \<open>The operator \<^verbatim>\<open>a - b\<close> on numbers.\<close>

fun js_sub :: "jsnum \<Rightarrow> jsnum \<Rightarrow> jsnum" where
  "js_sub JNaN b = JNaN"
| "js_sub a JNaN = JNaN"
| "js_sub (JInf a) (JInf b) = (if a = b then JNaN else JInf a)"
| "js_sub (JInf a) (JFin b n) = JInf a"
| "js_sub (JFin a m) (JInf b) = JInf (\<not> b)"
| "js_sub (JFin a m) (JFin b n) =
     (let v = signed a m - signed b n
      in if v = 0 then JFin (a \<and> \<not> b) 0 else round_double (v < 0) \<bar>v\<bar>)"

text \<open>The operator \<^verbatim>\<open>a * b\<close> on numbers.\<close>

fun js_mul :: "jsnum \<Rightarrow> jsnum \<Rightarrow> jsnum" where
  "js_mul JNaN b = JNaN"
| "js_mul a JNaN = JNaN"
| "js_mul (JInf a) (JInf b) = JInf (a \<noteq> b)"
| "js_mul (JInf a) (JFin b n) = (if n = 0 then JNaN else JInf (a \<noteq> b))"
| "js_mul (JFin a m) (JInf b) = (if m = 0 then JNaN else JInf (a \<noteq> b))"
| "js_mul (JFin a m) (JFin b n) = round_double (a \<noteq> b) (m * n)"

text \<open>The operator \<^verbatim>\<open>a >= b\<close>: false as soon as an operand is NaN.\<close>

fun js_ge :: "jsnum \<Rightarrow> jsnum \<Rightarrow> bool" where
  "js_ge JNaN b = False"
| "js_ge a JNaN = False"
| "js_ge (JInf a) (JInf b) = (\<not> a \<or> b)"
| "js_ge (JInf a) (JFin b n) = (\<not> a)"
| "js_ge (JFin a m) (JInf b) = b"
| "js_ge (JFin a m) (JFin b n) = (signed b n \<le> signed a m)"

fun Math_abs :: "jsnum \<Rightarrow> jsnum" where
  "Math_abs JNaN = JNaN"
| "Math_abs (JInf a) = JInf False"
| "Math_abs (JFin a m) = JFin False m"

text \<open>
  \<^verbatim>\<open>Math.round\<close>: the nearest integer, the one towards \<open>+\<infinity>\<close> of two equally near;
  a result of zero keeps the sign of the argument.
\<close>

fun Math_round :: "jsnum \<Rightarrow> jsnum" where
  "Math_round JNaN = JNaN"
| "Math_round (JInf a) = JInf a"
| "Math_round (JFin a m) =
     (let r = \<lfloor>signed a m + 1 / 2\<rfloor>
      in if r = 0 then JFin a 0 else JFin (r < 0) (of_int \<bar>r\<bar>))"

text \<open>\<^verbatim>\<open>Math.pow(10, power)\<close> for a natural \<^verbatim>\<open>power\<close>.\<close>

definition Math_pow10 :: "nat \<Rightarrow> jsnum" where
  "Math_pow10 p = round_double False (10 ^ p)"

text \<open>
  \<^verbatim>\<open>BigInt(number)\<close> throws a RangeError unless the number is an integer, and is that
  integer otherwise.
\<close>

fun BigInt :: "jsnum \<Rightarrow> error + int" where
  "BigInt JNaN = Inl RangeError"
| "BigInt (JInf a) = Inl RangeError"
| "BigInt (JFin a m) =
     (if m \<in> \<int> then Inr (if a then - \<lfloor>m\<rfloor> else \<lfloor>m\<rfloor>) else Inl RangeError)"

section \<open>Decimal strings\<close>

definition digit_char :: "nat \<Rightarrow> char" where
  "digit_char d = ''0123456789'' ! d"

fun digits10 :: "nat \<Rightarrow> string" where
  "digits10 n = (if n < 10 then [digit_char n]
                 else digits10 (n div 10) @ [digit_char (n mod 10)])"

declare digits10.simps [simp del]

definition is_digit :: "char \<Rightarrow> bool" where
  "is_digit c = (c \<in> set ''0123456789'')"

text \<open>The value of a digit is its place among the ten digits.\<close>

definition digit_val :: "char \<Rightarrow> nat" where
  "digit_val c = length (takeWhile (\<lambda>d. d \<noteq> c) ''0123456789'')"

definition digits_val :: "string \<Rightarrow> nat" where
  "digits_val ds = foldl (\<lambda>a c. 10 * a + digit_val c) 0 ds"


subsection \<open>\<^verbatim>\<open>Number.prototype.toFixed\<close>\<close>

text \<open>
  Fixed notation of a real \<open>0 \<le> x < 10 ^ 21\<close> with \<open>f\<close> fraction digits
  (ECMAScript, \<^verbatim>\<open>Number.prototype.toFixed\<close>, the steps for \<^verbatim>\<open>x < 10^21\<close>): \<open>n\<close> is
  the integer for which \<open>n / 10 ^ f - x\<close> is nearest to zero, the larger of two; its digits are
  padded with zeros to \<open>f + 1\<close> characters and the point is put before the last \<open>f\<close>.
\<close>

definition pad_point :: "nat \<Rightarrow> string \<Rightarrow> string" where
  "pad_point f m =
     (if f = 0 then m
      else let m' = (if length m \<le> f then replicate (f + 1 - length m) CHR ''0'' @ m else m);
               k = length m'
           in take (k - f) m' @ ''.'' @ drop (k - f) m')"

definition fixedNotation :: "nat \<Rightarrow> real \<Rightarrow> string" where
  "fixedNotation f x = pad_point f (digits10 (nat \<lfloor>x * 10 ^ f + 1 / 2\<rfloor>))"

text \<open>
  \<^verbatim>\<open>Number::toString\<close> of a finite \<open>x \<ge> 10 ^ 21\<close>: integers \<open>n\<close>, \<open>k\<close>, \<open>s\<close> with
  \<open>10 ^ (k - 1) \<le> s < 10 ^ k\<close>, such that \<open>s * 10 ^ (n - k)\<close> rounds to \<open>x\<close>, with \<open>k\<close>
  as small as possible and \<open>s * 10 ^ (n - k)\<close> nearest to \<open>x\<close>; as \<open>n > 21\<close> the result
  is in exponent notation.  \<open>sci_choices x k\<close> lists the \<open>(n, s)\<close> that qualify for one
  \<open>k\<close>: \<open>n\<close> is the number of digits of \<open>x\<close> or one more, and \<open>s\<close> one of the
  two integers around \<open>x / 10 ^ (n - k)\<close>.  Seventeen digits identify every binary64 value.
\<close>

definition sci_choices :: "real \<Rightarrow> nat \<Rightarrow> (nat \<times> nat) list" where
  "sci_choices x k =
     (let d = length (digits10 (nat \<lfloor>x\<rfloor>))
      in [(n, s). n \<leftarrow> [d, d + 1],
                  s \<leftarrow> [nat \<lfloor>x / 10 ^ (n - k)\<rfloor>, nat \<lfloor>x / 10 ^ (n - k)\<rfloor> + 1],
                  10 ^ (k - 1) \<le> s \<and> s < 10 ^ k
                  \<and> round_double False (of_nat s * 10 ^ (n - k)) = JFin False x])"

fun nearest_choice :: "real \<Rightarrow> nat \<Rightarrow> nat \<times> nat \<Rightarrow> (nat \<times> nat) list \<Rightarrow> nat \<times> nat" where
  "nearest_choice x k c [] = c"
| "nearest_choice x k (n, s) ((n', s') # cs) =
     (if \<bar>of_nat s' * 10 ^ (n' - k) - x\<bar> < \<bar>of_nat s * 10 ^ (n - k) - x\<bar>
      then nearest_choice x k (n', s') cs else nearest_choice x k (n, s) cs)"

function sci_search :: "real \<Rightarrow> nat \<Rightarrow> (nat \<times> nat \<times> nat) option" where
  "sci_search x k =
     (if 17 < k then None
      else case sci_choices x k of
             [] \<Rightarrow> sci_search x (Suc k)
           | c # cs \<Rightarrow> (case nearest_choice x k c cs of (n, s) \<Rightarrow> Some (n, k, s)))"
  by pat_completeness auto
termination
  by (relation "measure (\<lambda>(x, k). 18 - k)") auto

declare sci_search.simps [simp del]

definition exponentNotation :: "real \<Rightarrow> string" where
  "exponentNotation x =
     (case sci_search x 1 of
        None \<Rightarrow> []
      | Some (n, k, s) \<Rightarrow>
          (if k = 1 then digits10 s @ ''e+'' @ digits10 (n - 1)
           else take 1 (digits10 s) @ ''.'' @ drop 1 (digits10 s) @ ''e+'' @ digits10 (n - 1)))"

text \<open>
  \<^verbatim>\<open>x.toFixed(f)\<close> for \<open>0 \<le> f \<le> 100\<close> (the sources pass 8): the name of a value that is
  not finite; otherwise the sign of a negative value (not of \<^verbatim>\<open>-0\<close>), then exponent
  notation from \<open>10 ^ 21\<close> on and fixed notation below.
\<close>

fun toFixed :: "jsnum \<Rightarrow> nat \<Rightarrow> string" where
  "toFixed JNaN f = ''NaN''"
| "toFixed (JInf neg) f = (if neg then ''-Infinity'' else ''Infinity'')"
| "toFixed (JFin neg m) f =
     (if neg \<and> 0 < m then ''-'' else []) @
     (if 10 ^ 21 \<le> m then exponentNotation m else fixedNotation f m)"

subsection \<open>\<^verbatim>\<open>parseFloat\<close>\<close>

definition is_ws :: "char \<Rightarrow> bool" where
  "is_ws c = (c \<in> set [CHR 0x20, CHR 0x09, CHR 0x0A, CHR 0x0B, CHR 0x0C, CHR 0x0D])"

text \<open>The exponent part \<^verbatim>\<open>e\<close>, sign, digits at the head of a string; 0 when there is none.\<close>

definition exponent_part :: "string \<Rightarrow> int" where
  "exponent_part r =
     (case r of
        [] \<Rightarrow> 0
      | c # r' \<Rightarrow>
          if c = CHR ''e'' \<or> c = CHR ''E'' then
            (let neg = (r' \<noteq> [] \<and> hd r' = CHR ''-'');
                 r'' = (if r' \<noteq> [] \<and> (hd r' = CHR ''-'' \<or> hd r' = CHR ''+'') then tl r' else r');
                 ds = takeWhile is_digit r''
             in if neg then - int (digits_val ds) else int (digits_val ds))
          else 0)"

text \<open>
  \<^verbatim>\<open>parseFloat(string)\<close>: leading white space is skipped, the longest prefix that is a
  decimal literal (sign, \<^verbatim>\<open>Infinity\<close> or digits with an optional fraction and exponent)
  is read, and its value is rounded to binary64; NaN when there is no such prefix.
\<close>

definition parseFloat :: "string \<Rightarrow> jsnum" where
  "parseFloat str =
     (let t = dropWhile is_ws str;
          neg = (t \<noteq> [] \<and> hd t = CHR ''-'');
          u = (if t \<noteq> [] \<and> (hd t = CHR ''-'' \<or> hd t = CHR ''+'') then tl t else t)
      in if take 8 u = ''Infinity'' then JInf neg
         else let ip = takeWhile is_digit u;
                  r1 = dropWhile is_digit u;
                  pt = (r1 \<noteq> [] \<and> hd r1 = CHR ''.'');
                  fp = (if pt then takeWhile is_digit (tl r1) else []);
                  r2 = (if pt then dropWhile is_digit (tl r1) else r1)
              in if ip = [] \<and> fp = [] then JNaN
                 else round_double neg
                        (of_nat (digits_val (ip @ fp)) * pow10 (exponent_part r2 - int (length fp))))"

subsection \<open>\<^verbatim>\<open>String.prototype.replace\<close> with \<^verbatim>\<open>/\.?0+$/\<close>\<close>

text \<open>
  \<^verbatim>\<open>s.replace(/\.?0+$/, '')\<close> removes the leftmost match of an optional point followed by
  one or more zeros that reach the end of the string: the whole final run of zeros, and the
  point when one stands right before it.  Without a final zero nothing matches.
\<close>

definition replace_trailing_zeros :: "string \<Rightarrow> string" where
  "replace_trailing_zeros s =
     (let r = rev s;
          zs = takeWhile (\<lambda>c. c = CHR ''0'') r;
          rest = dropWhile (\<lambda>c. c = CHR ''0'') r
      in if zs = [] then s
         else if rest \<noteq> [] \<and> hd rest = CHR ''.'' then rev (tl rest) else rev rest)"

section \<open>The numeric wire encoders (\<^verbatim>\<open>src/utils/signing.ts\<close>, \<^verbatim>\<open>src/utils/mpcSigning.ts\<close>)\<close>

definition floatToWire :: "jsnum \<Rightarrow> error + string" where
  "floatToWire x =
     (let rounded = toFixed x 8
      in if js_ge (Math_abs (js_sub (parseFloat rounded) x)) (js_lit (1 / 10 ^ 12))
         then Inl FloatToWireRounding
         else let normalized = replace_trailing_zeros rounded
              in Inr (if normalized = ''-0'' then ''0'' else normalized))"

definition floatToInt :: "jsnum \<Rightarrow> nat \<Rightarrow> error + jsnum" where
  "floatToInt x p =
     (let withDecimals = js_mul x (Math_pow10 p)
      in if js_ge (Math_abs (js_sub (Math_round withDecimals) withDecimals)) (js_lit (1 / 10 ^ 3))
         then Inl FloatToIntRounding
         else Inr (Math_round withDecimals))"

definition floatToIntForHashing :: "jsnum \<Rightarrow> error + jsnum" where
  "floatToIntForHashing x = floatToInt x 8"

definition floatToUsdInt :: "jsnum \<Rightarrow> error + jsnum" where
  "floatToUsdInt x = floatToInt x 6"

text \<open>
  The decimal encoder as the specification words it, for a finite number of sign \<open>neg\<close>
  and magnitude \<open>m\<close>: the number is formatted with eight fraction digits, trailing zeros
  and then a trailing point are stripped, "-0" becomes "0", and the encoding fails when the
  formatted string parsed back is \<^verbatim>\<open>1e-12\<close> or more away from the number.  It is compared
  with \<open>floatToWire\<close> below.
\<close>

definition strip_zeros_spec :: "string \<Rightarrow> string" where
  "strip_zeros_spec s =
     (let t = rev (dropWhile (\<lambda>c. c = CHR ''0'') (rev s))
      in if t \<noteq> [] \<and> last t = CHR ''.'' then butlast t else t)"

definition decimalToWire_spec :: "bool \<Rightarrow> real \<Rightarrow> error + string" where
  "decimalToWire_spec neg m =
     (let formatted = (if neg \<and> 0 < m then ''-'' else []) @ fixedNotation 8 m
      in if js_ge (Math_abs (js_sub (parseFloat formatted) (JFin neg m))) (js_lit (1 / 10 ^ 12))
         then Inl FloatToWireRounding
         else let s = strip_zeros_spec formatted in Inr (if s = ''-0'' then ''0'' else s))"

section \<open>The order wire mapper (\<^verbatim>\<open>src/utils/signing.ts\<close>)\<close>

text \<open>
  An order type is an object with the optional properties \<^verbatim>\<open>limit\<close> and \<^verbatim>\<open>trigger\<close>;
  \<open>None\<close> is a property that is missing (or otherwise falsy), an object is truthy.  The
  trigger price of a request has the type \<open>'px\<close> of whatever the caller passes; the
  mapper converts it with JavaScript's \<^verbatim>\<open>Number(...)\<close>, a parameter here.
\<close>

record limit_type =
  tif :: string

record 'px trigger_type =
  isMarket :: bool
  triggerPx :: 'px
  tpsl :: string

record 'px order_type =
  limit :: "limit_type option"
  trigger :: "'px trigger_type option"

definition orderTypeToWire :: "('px \<Rightarrow> jsnum) \<Rightarrow> 'px order_type \<Rightarrow> error + string order_type" where
  "orderTypeToWire Number orderType =
     (case limit orderType of
        Some l \<Rightarrow> Inr \<lparr>limit = Some l, trigger = None\<rparr>
      | None \<Rightarrow>
          (case trigger orderType of
             Some t \<Rightarrow>
               bind_err (floatToWire (Number (triggerPx t)))
                 (\<lambda>px. Inr \<lparr>limit = None,
                             trigger = Some \<lparr>isMarket = isMarket t, triggerPx = px, tpsl = tpsl t\<rparr>\<rparr>)
           | None \<Rightarrow> Inl InvalidOrderType))"

record 'px order =
  coin :: string
  is_buy :: bool
  sz :: jsnum
  limit_px :: jsnum
  order_type :: "'px order_type"
  reduce_only :: bool
  cloid :: "string option"   \<comment> \<open>\<open>None\<close> is \<^verbatim>\<open>undefined\<close>\<close>

text \<open>
  The wire order is a JavaScript object: its properties in the order of their creation,
  which is the order msgpack serializes them in.
\<close>

datatype wire_val = WNum jsnum | WBool bool | WStr string | WType "string order_type"

type_synonym order_wire = "(string \<times> wire_val) list"

definition orderToWire :: "('px \<Rightarrow> jsnum) \<Rightarrow> 'px order \<Rightarrow> jsnum \<Rightarrow> error + order_wire" where
  "orderToWire Number ord asset =
     bind_err (floatToWire (limit_px ord)) (\<lambda>p.
     bind_err (floatToWire (sz ord)) (\<lambda>s.
     bind_err (orderTypeToWire Number (order_type ord)) (\<lambda>t.
       let orderWire = [(''a'', WNum asset), (''b'', WBool (is_buy ord)), (''p'', WStr p),
                        (''s'', WStr s), (''r'', WBool (reduce_only ord)), (''t'', WType t)]
       in Inr (case cloid ord of
                 Some c \<Rightarrow> orderWire @ [(''c'', WStr c)]
               | None \<Rightarrow> orderWire))))"

section \<open>The action hasher (\<^verbatim>\<open>actionHash\<close>)\<close>

type_synonym u8 = "8 word"

text \<open>\<^verbatim>\<open>data.set(source, offset)\<close> on a \<^verbatim>\<open>Uint8Array\<close>: a RangeError when the source does not fit.\<close>

definition typed_array_set :: "u8 list \<Rightarrow> u8 list \<Rightarrow> nat \<Rightarrow> error + u8 list" where
  "typed_array_set data source offset =
     (if length data < offset + length source then Inl RangeError
      else Inr (take offset data @ source @ drop (offset + length source) data))"

text \<open>The eight bytes of a 64-bit value, the most significant first.\<close>

definition be_bytes64 :: "64 word \<Rightarrow> u8 list" where
  "be_bytes64 w = map (\<lambda>i. ucast (drop_bit (8 * (7 - i)) w)) [0..<8]"

text \<open>
  \<^verbatim>\<open>view.setBigUint64(byteOffset, value, false)\<close>: the value is taken modulo \<open>2 ^ 64\<close>
  and stored big-endian; a RangeError when eight bytes do not fit at the offset.
\<close>

definition setBigUint64 :: "u8 list \<Rightarrow> nat \<Rightarrow> int \<Rightarrow> error + u8 list" where
  "setBigUint64 data byteOffset val =
     (if length data < byteOffset + 8 then Inl RangeError
      else Inr (take byteOffset data @ be_bytes64 (word_of_int val) @ drop (byteOffset + 8) data))"

definition setUint8 :: "u8 list \<Rightarrow> nat \<Rightarrow> u8 \<Rightarrow> error + u8 list" where
  "setUint8 data byteOffset val =
     (if length data < byteOffset + 1 then Inl RangeError
      else Inr (take byteOffset data @ [val] @ drop (byteOffset + 1) data))"

text \<open>
  \<^verbatim>\<open>actionHash\<close>.  The imported functions are parameters: \<open>encode\<close> is msgpack's
  \<^verbatim>\<open>encode\<close>, \<open>getBytes\<close> and \<open>keccak256\<close> are those of ethers (\<^verbatim>\<open>addressToBytes\<close> is
  \<^verbatim>\<open>getBytes\<close>); the digest has the type \<open>'h\<close> of what \<open>keccak256\<close> returns.  A \<^verbatim>\<open>null\<close>
  vault address is \<open>None\<close>.  The buffer is created filled with zeros and written in the
  order of the source.
\<close>

definition actionHash ::
  "('a \<Rightarrow> error + u8 list) \<Rightarrow> (string \<Rightarrow> error + u8 list) \<Rightarrow> (u8 list \<Rightarrow> 'h)
     \<Rightarrow> 'a \<Rightarrow> string option \<Rightarrow> jsnum \<Rightarrow> error + 'h" where
  "actionHash encode getBytes keccak256 act vaultAddress nonce =
     bind_err (encode act) (\<lambda>msgPackBytes.
       let additionalBytesLength = (if vaultAddress = None then 9 else 29 :: nat);
           data0 = replicate (length msgPackBytes + additionalBytesLength) (0 :: u8)
       in bind_err (typed_array_set data0 msgPackBytes 0) (\<lambda>data1.
          bind_err (BigInt nonce) (\<lambda>big.
          bind_err (setBigUint64 data1 (length msgPackBytes) big) (\<lambda>data2.
          bind_err
            (case vaultAddress of
               None \<Rightarrow> setUint8 data2 (length msgPackBytes + 8) 0
             | Some address \<Rightarrow>
                 bind_err (setUint8 data2 (length msgPackBytes + 8) 1) (\<lambda>data3.
                 bind_err (getBytes address) (\<lambda>bytes.
                   typed_array_set data3 bytes (length msgPackBytes + 9))))
            (\<lambda>data. Inr (keccak256 data))))))"

text \<open>
  The big-endian encoding of a natural number in \<open>k\<close> bytes, as the specification words
  it (the most significant byte first), and the number a list of bytes encodes; they are
  what the bytes written by \<^verbatim>\<open>setBigUint64\<close> are compared with.
\<close>

fun be_encode :: "nat \<Rightarrow> nat \<Rightarrow> u8 list" where
  "be_encode 0 n = []"
| "be_encode (Suc k) n = be_encode k (n div 256) @ [of_nat (n mod 256)]"

definition be_decode :: "u8 list \<Rightarrow> nat" where
  "be_decode bs = foldl (\<lambda>a b. a * 256 + unat b) 0 bs"

section \<open>Typed data\<close>

text \<open>
  JavaScript values as far as the signing code handles them; an object is the list of its
  properties in the order of their creation.
\<close>

datatype jsval =
    VUndefined | VNull | VBool bool | VNum jsnum | VStr string
  | VArr "jsval list" | VObj "(string \<times> jsval) list"

type_synonym jsobj = "(string \<times> jsval) list"



record eip712_domain =
  chainId :: jsnum
  name :: string
  verifyingContract :: string
  version :: string

text \<open>A type schema: the name of each struct with its fields, each a name and a type.\<close>

type_synonym eip712_types = "(string \<times> (string \<times> string) list) list"

record typed_data =
  domain :: eip712_domain
  types :: eip712_types
  primaryType :: string
  message :: jsobj

definition phantomDomain :: eip712_domain where
  "phantomDomain =
     \<lparr>chainId = JFin False 1337, name = ''Exchange'',
      verifyingContract = ''0x0000000000000000000000000000000000000000'', version = ''1''\<rparr>"

definition agentTypes :: eip712_types where
  "agentTypes = [(''Agent'', [(''source'', ''string''), (''connectionId'', ''bytes32'')])]"

definition constructPhantomAgent :: "string \<Rightarrow> bool \<Rightarrow> jsobj" where
  "constructPhantomAgent hash isMainnet =
     [(''source'', VStr (if isMainnet then ''a'' else ''b'')), (''connectionId'', VStr hash)]"

section \<open>The signer adapter (\<^verbatim>\<open>signInner\<close>, \<^verbatim>\<open>splitSig\<close>)\<close>

datatype signature = Signature (sig_r: string) (sig_s: string) (sig_v: nat)

text \<open>
  What \<^verbatim>\<open>signTypedData\<close> is called with: one parameter object, or domain, types and
  message.
\<close>

datatype sign_args =
    ClientParams typed_data
  | DirectParams eip712_domain eip712_types jsobj

text \<open>
  The \<^verbatim>\<open>signTypedData\<close> member of a wallet: missing, a value that is no function, or a
  function with its \<^verbatim>\<open>length\<close> (the number of declared parameters) and what a call of it
  resolves to.  A wallet is a value that is no object, \<^verbatim>\<open>null\<close>, or an object.
\<close>

datatype member =
    Missing
  | NoFunction
  | Function nat "sign_args \<Rightarrow> error + string"

datatype wallet = NoObject | Null | Object member

fun isAbstractWalletClient :: "wallet \<Rightarrow> bool" where
  "isAbstractWalletClient (Object (Function n f)) = (n = 1)"
| "isAbstractWalletClient w = False"

fun isAbstractSigner :: "wallet \<Rightarrow> bool" where
  "isAbstractSigner (Object (Function n f)) = (n = 3)"
| "isAbstractSigner w = False"

fun signTypedData :: "wallet \<Rightarrow> sign_args \<Rightarrow> error + string" where
  "signTypedData (Object (Function n f)) args = f args"
| "signTypedData w args = Inl (LibraryError ''signTypedData is not a function'')"

text \<open>\<open>Signature_from\<close> is \<^verbatim>\<open>ethers.Signature.from\<close>, a parameter.\<close>

definition splitSig :: "(string \<Rightarrow> error + signature) \<Rightarrow> string \<Rightarrow> error + signature" where
  "splitSig Signature_from sig =
     bind_err (Signature_from sig) (\<lambda>e. Inr (Signature (sig_r e) (sig_s e) (sig_v e)))"

definition signInner ::
  "(string \<Rightarrow> error + signature) \<Rightarrow> wallet \<Rightarrow> typed_data \<Rightarrow> error + signature" where
  "signInner Signature_from wallet data =
     (if isAbstractWalletClient wallet then
        bind_err (signTypedData wallet
                    (ClientParams \<lparr>domain = domain data, types = types data,
                                    primaryType = primaryType data, message = message data\<rparr>))
          (splitSig Signature_from)
      else if isAbstractSigner wallet then
        bind_err (signTypedData wallet (DirectParams (domain data) (types data) (message data)))
          (splitSig Signature_from)
      else Inl UnsupportedWallet)"

text \<open>
  \<^verbatim>\<open>submitSignedAction\<close> of the exchange class: a signature given as a string is split, one
  given in parts is taken as it is; the payload goes to \<^verbatim>\<open>httpApi.makeRequest\<close>, a
  parameter.
\<close>

definition submitSignedAction ::
  "(string \<Rightarrow> error + signature) \<Rightarrow> ('a \<times> jsnum \<times> signature \<times> string option \<Rightarrow> error + 'r)
     \<Rightarrow> 'a \<Rightarrow> jsnum \<Rightarrow> string + signature \<Rightarrow> string option \<Rightarrow> error + 'r" where
  "submitSignedAction Signature_from makeRequest act nonce sig vaultAddress =
     bind_err (case sig of Inl str \<Rightarrow> splitSig Signature_from str | Inr parts \<Rightarrow> Inr parts)
       (\<lambda>formattedSignature. makeRequest (act, nonce, formattedSignature, vaultAddress))"

section \<open>Signing L1 actions\<close>

text \<open>\<^verbatim>\<open>signL1Action\<close>; its \<^verbatim>\<open>console.log\<close> of the typed data is left out.\<close>

definition signL1Action ::
  "('a \<Rightarrow> error + u8 list) \<Rightarrow> (string \<Rightarrow> error + u8 list) \<Rightarrow> (u8 list \<Rightarrow> string)
     \<Rightarrow> (string \<Rightarrow> error + signature)
     \<Rightarrow> wallet \<Rightarrow> 'a \<Rightarrow> string option \<Rightarrow> jsnum \<Rightarrow> bool \<Rightarrow> error + signature" where
  "signL1Action encode getBytes keccak256 Signature_from wallet act activePool nonce isMainnet =
     bind_err (actionHash encode getBytes keccak256 act activePool nonce) (\<lambda>hash.
       let phantomAgent = constructPhantomAgent hash isMainnet;
           data = \<lparr>domain = phantomDomain, types = agentTypes, primaryType = ''Agent'',
                   message = phantomAgent\<rparr>
       in signInner Signature_from wallet data)"

text \<open>\<^verbatim>\<open>getTxObject\<close> of \<^verbatim>\<open>mpcSigning.ts\<close>: the same typed data, returned unsigned.\<close>

definition getTxObject ::
  "('a \<Rightarrow> error + u8 list) \<Rightarrow> (string \<Rightarrow> error + u8 list) \<Rightarrow> (u8 list \<Rightarrow> string)
     \<Rightarrow> 'a \<Rightarrow> string option \<Rightarrow> jsnum \<Rightarrow> bool \<Rightarrow> error + typed_data" where
  "getTxObject encode getBytes keccak256 act activePool nonce isMainnet =
     bind_err (actionHash encode getBytes keccak256 act activePool nonce) (\<lambda>hash.
       let phantomAgent = constructPhantomAgent hash isMainnet
       in Inr \<lparr>domain = phantomDomain, types = agentTypes, primaryType = ''Agent'',
               message = phantomAgent\<rparr>)"

record 'a l1_typed_data = typed_data +
  l1_action :: 'a
  l1_nonce :: jsnum
  l1_vaultAddress :: "string option"
  l1_hash :: string

text \<open>
  \<^verbatim>\<open>createL1ActionTypedData\<close>: the typed data with the properties \<^verbatim>\<open>action\<close>, \<^verbatim>\<open>nonce\<close>,
  \<^verbatim>\<open>vaultAddress\<close> and \<^verbatim>\<open>hash\<close> beside it.
\<close>

definition createL1ActionTypedData ::
  "('a \<Rightarrow> error + u8 list) \<Rightarrow> (string \<Rightarrow> error + u8 list) \<Rightarrow> (u8 list \<Rightarrow> string)
     \<Rightarrow> 'a \<Rightarrow> string option \<Rightarrow> jsnum \<Rightarrow> bool \<Rightarrow> error + 'a l1_typed_data" where
  "createL1ActionTypedData encode getBytes keccak256 act vaultAddress nonce isMainnet =
     bind_err (actionHash encode getBytes keccak256 act vaultAddress nonce) (\<lambda>hash.
       let phantomAgent = constructPhantomAgent hash isMainnet
       in Inr \<lparr>domain = phantomDomain, types = agentTypes, primaryType = ''Agent'',
               message = phantomAgent, l1_action = act, l1_nonce = nonce,
               l1_vaultAddress = vaultAddress, l1_hash = hash\<rparr>)"

section \<open>User-signed actions\<close>











section \<open>Asset indices of a batch of orders (\<^verbatim>\<open>src/rest/exchange.ts\<close>)\<close>

text \<open>
  The resolver \<^verbatim>\<open>symbolConversion.getAssetIndex\<close> is a parameter: the index of a symbol,
  \<open>None\<close> for \<^verbatim>\<open>undefined\<close>.  The state of one batch call is the map \<^verbatim>\<open>assetIndexCache\<close>
  and the symbols the resolver has been invoked with, in order.
\<close>

record batch_state =
  assetIndexCache :: "string \<rightharpoonup> jsnum"
  lookups :: "string list"

text \<open>
  A callback of \<^verbatim>\<open>ordersArray.map(async (o) => ...)\<close> runs, when \<^verbatim>\<open>map\<close> calls it, up to
  its first \<^verbatim>\<open>await\<close>, and \<^verbatim>\<open>map\<close> calls the next one; what follows the \<^verbatim>\<open>await\<close> runs
  after \<^verbatim>\<open>map\<close> has returned.  A callback is then either settled, or waiting for the
  resolver with its order.
\<close>

datatype 'px pending = Settled "error + order_wire" | Waiting "'px order"

text \<open>
  First part of the callback of \<^verbatim>\<open>placeOrder\<close> and \<^verbatim>\<open>getTxObjectPlaceOrder\<close>: it reads the
  cache, and on a miss calls \<^verbatim>\<open>this.getAssetIndex\<close>, which invokes the resolver and waits.
\<close>

definition placeOrder_start ::
  "('px \<Rightarrow> jsnum) \<Rightarrow> batch_state \<Rightarrow> 'px order \<Rightarrow> 'px pending \<times> batch_state" where
  "placeOrder_start Number st ord =
     (case assetIndexCache st (coin ord) of
        Some assetIndex \<Rightarrow> (Settled (orderToWire Number ord assetIndex), st)
      | None \<Rightarrow> (Waiting ord, st\<lparr>lookups := lookups st @ [coin ord]\<rparr>))"

text \<open>
  Second part: \<^verbatim>\<open>getAssetIndex\<close> throws on \<^verbatim>\<open>undefined\<close>; otherwise the index is stored in
  the cache and the order is mapped.
\<close>

definition placeOrder_resume ::
  "('px \<Rightarrow> jsnum) \<Rightarrow> (string \<Rightarrow> jsnum option) \<Rightarrow> batch_state \<Rightarrow> 'px pending
     \<Rightarrow> (error + order_wire) \<times> batch_state" where
  "placeOrder_resume Number resolver st p =
     (case p of
        Settled r \<Rightarrow> (r, st)
      | Waiting ord \<Rightarrow>
          (case resolver (coin ord) of
             None \<Rightarrow> (Inl (UnknownAsset (coin ord)), st)
           | Some assetIndex \<Rightarrow>
               (orderToWire Number ord assetIndex,
                st\<lparr>assetIndexCache := (assetIndexCache st)(coin ord \<mapsto> assetIndex)\<rparr>)))"

text \<open>
  The callback of \<^verbatim>\<open>placeOrdersTpSl\<close> starts with \<^verbatim>\<open>await this.getAssetIndex(o.coin)\<close>; the
  branch that would fill the cache needs an \<^verbatim>\<open>undefined\<close> index, on which \<^verbatim>\<open>getAssetIndex\<close>
  has thrown already.
\<close>

definition placeOrdersTpSl_start ::
  "batch_state \<Rightarrow> 'px order \<Rightarrow> 'px pending \<times> batch_state" where
  "placeOrdersTpSl_start st ord = (Waiting ord, st\<lparr>lookups := lookups st @ [coin ord]\<rparr>)"

definition placeOrdersTpSl_resume ::
  "('px \<Rightarrow> jsnum) \<Rightarrow> (string \<Rightarrow> jsnum option) \<Rightarrow> batch_state \<Rightarrow> 'px pending
     \<Rightarrow> (error + order_wire) \<times> batch_state" where
  "placeOrdersTpSl_resume Number resolver st p =
     (case p of
        Settled r \<Rightarrow> (r, st)
      | Waiting ord \<Rightarrow>
          (case resolver (coin ord) of
             None \<Rightarrow> (Inl (UnknownAsset (coin ord)), st)
           | Some assetIndex \<Rightarrow> (orderToWire Number ord assetIndex, st)))"

text \<open>Running a step over a list from the left, the state threaded through.\<close>

fun run_all :: "('s \<Rightarrow> 'a \<Rightarrow> 'b \<times> 's) \<Rightarrow> 's \<Rightarrow> 'a list \<Rightarrow> 'b list \<times> 's" where
  "run_all step st [] = ([], st)"
| "run_all step st (x # xs) =
     (case step st x of (y, st') \<Rightarrow>
        (case run_all step st' xs of (ys, st'') \<Rightarrow> (y # ys, st'')))"

text \<open>
  \<^verbatim>\<open>Promise.all\<close>: all the values in the order of the promises when all are fulfilled,
  and else the rejection that comes first in time.  The callbacks below go on in the order
  of the batch, which is the order in time when the resolver answers in the order it was
  asked; under this order the rejection that comes first is the first of the list.  With a
  resolver that answers in another order the error of a failing batch can be that of a later
  order; the symbols looked up are the same in every order.
\<close>

fun Promise_all :: "(error + 'a) list \<Rightarrow> error + 'a list" where
  "Promise_all [] = Inr []"
| "Promise_all (Inl e # rs) = Inl e"
| "Promise_all (Inr v # rs) = bind_err (Promise_all rs) (\<lambda>vs. Inr (v # vs))"

text \<open>
  The wire orders of a batch and the state at the end: every callback is started, in the
  order of the batch and with a new, empty cache; then the waiting ones go on, in that
  order.
\<close>

definition batch_start :: batch_state where
  "batch_start = \<lparr>assetIndexCache = Map.empty, lookups = []\<rparr>"

definition placeOrder_orderWires ::
  "('px \<Rightarrow> jsnum) \<Rightarrow> (string \<Rightarrow> jsnum option) \<Rightarrow> 'px order list
     \<Rightarrow> (error + order_wire list) \<times> batch_state" where
  "placeOrder_orderWires Number resolver ordersArray =
     (case run_all (placeOrder_start Number) batch_start ordersArray of
        (pend, st) \<Rightarrow>
          (case run_all (placeOrder_resume Number resolver) st pend of
             (rs, st') \<Rightarrow> (Promise_all rs, st')))"

definition placeOrdersTpSl_orderWires ::
  "('px \<Rightarrow> jsnum) \<Rightarrow> (string \<Rightarrow> jsnum option) \<Rightarrow> 'px order list
     \<Rightarrow> (error + order_wire list) \<times> batch_state" where
  "placeOrdersTpSl_orderWires Number resolver ordersArray =
     (case run_all placeOrdersTpSl_start batch_start ordersArray of
        (pend, st) \<Rightarrow>
          (case run_all (placeOrdersTpSl_resume Number resolver) st pend of
             (rs, st') \<Rightarrow> (Promise_all rs, st')))"

section \<open>Evaluation on concrete numbers and strings\<close>

lemma replicate_if: "replicate n c = (if n = 0 then [] else c # replicate (n - 1) c)"
  by (cases n) simp_all

lemmas num_ev = round_double_def ilog2_def bitlen.simps pow2_def pow10_def round_half_even_def
  Let_def signed_def js_lit_def

lemmas str_ev = fixedNotation_def pad_point_def digits10.simps digit_char_def replicate_if
  parseFloat_def is_ws_def is_digit_def digits_val_def digit_val_def exponent_part_def
  replace_trailing_zeros_def Let_def

lemma floatToWire_2: "floatToWire (JFin False 2) = Inr ''2''"
  by (simp add: floatToWire_def str_ev num_ev)

section \<open>The signer adapter dispatches on the arity of \<^verbatim>\<open>signTypedData\<close>\<close>

lemma typed_data_rebuild:
  "\<lparr>domain = domain d, types = types d, primaryType = primaryType d, message = message d\<rparr>
     = (d :: typed_data)"
  by (cases d) simp

text \<open>
  C7.  \<^verbatim>\<open>signInner\<close> calls an object's function \<^verbatim>\<open>signTypedData\<close> of length 1 with the one
  parameter object, one of length 3 with domain, types and message; a wallet of any other
  shape (no object, \<^verbatim>\<open>null\<close>, no such member, a member that is no function, another
  length) fails with the unsupported-wallet error.  In both calls the string the signer
  returns goes through \<^verbatim>\<open>splitSig\<close>, whose result is the \<^verbatim>\<open>r\<close>, \<^verbatim>\<open>s\<close> and \<^verbatim>\<open>v\<close> of what
  \<^verbatim>\<open>ethers.Signature.from\<close> makes of that string (an exception of the signer or of
  \<^verbatim>\<open>Signature.from\<close> is passed on); \<^verbatim>\<open>submitSignedAction\<close> does the same with a
  signature given as a string, before the request is made.
\<close>

theorem signInner_dispatch:
  "signInner Signature_from w data =
     (case w of
        Object (Function n f) \<Rightarrow>
          if n = 1 then
            bind_err (f (ClientParams data)) (\<lambda>raw.
            bind_err (Signature_from raw) (\<lambda>e.
              Inr (Signature (sig_r e) (sig_s e) (sig_v e))))
          else if n = 3 then
            bind_err (f (DirectParams (domain data) (types data) (message data))) (\<lambda>raw.
            bind_err (Signature_from raw) (\<lambda>e.
              Inr (Signature (sig_r e) (sig_s e) (sig_v e))))
          else Inl UnsupportedWallet
      | _ \<Rightarrow> Inl UnsupportedWallet)
   \<and> splitSig Signature_from str =
       (case Signature_from str of
          Inl err \<Rightarrow> Inl err
        | Inr e \<Rightarrow> Inr (Signature (sig_r e) (sig_s e) (sig_v e)))
   \<and> submitSignedAction Signature_from makeRequest act n' (Inl str) va =
       bind_err (Signature_from str) (\<lambda>e.
         makeRequest (act, n', Signature (sig_r e) (sig_s e) (sig_v e), va))
   \<and> submitSignedAction Signature_from makeRequest act n' (Inr parts) va =
       makeRequest (act, n', parts, va)"
proof -
  have split: "splitSig Signature_from =
      (\<lambda>raw. bind_err (Signature_from raw) (\<lambda>e. Inr (Signature (sig_r e) (sig_s e) (sig_v e))))"
    by (rule ext) (simp only: splitSig_def)
  have inner: "signInner Signature_from w data =
     (case w of
        Object (Function n f) \<Rightarrow>
          if n = 1 then bind_err (f (ClientParams data)) (splitSig Signature_from)
          else if n = 3 then
            bind_err (f (DirectParams (domain data) (types data) (message data)))
              (splitSig Signature_from)
          else Inl UnsupportedWallet
      | _ \<Rightarrow> Inl UnsupportedWallet)"
    by (cases w rule: isAbstractWalletClient.cases)
       (simp_all add: signInner_def typed_data_rebuild)
  have s: "splitSig Signature_from str =
       (case Signature_from str of
          Inl err \<Rightarrow> Inl err
        | Inr e \<Rightarrow> Inr (Signature (sig_r e) (sig_s e) (sig_v e)))"
    by (simp only: splitSig_def bind_err_def)
  have sub1: "submitSignedAction Signature_from makeRequest act n' (Inl str) va =
       bind_err (Signature_from str) (\<lambda>e.
         makeRequest (act, n', Signature (sig_r e) (sig_s e) (sig_v e), va))"
    by (cases "Signature_from str") (simp_all add: submitSignedAction_def splitSig_def bind_err_def)
  have sub2: "submitSignedAction Signature_from makeRequest act n' (Inr parts) va =
       makeRequest (act, n', parts, va)"
    by (simp add: submitSignedAction_def bind_err_def)
  from inner [unfolded split] s sub1 sub2 show ?thesis by (intro conjI)
qed

section \<open>The typed data of an L1 action\<close>

text \<open>
  C2.  \<^verbatim>\<open>signL1Action\<close> signs, and \<^verbatim>\<open>createL1ActionTypedData\<close> returns, the typed data with
  the domain of chain id 1337, name "Exchange", version "1" and the zero address as
  verifying contract, the schema Agent of source: string and connectionId: bytes32 in this
  order, the primary type Agent and the message of source "a" on mainnet and "b" otherwise
  and of the digest of \<^verbatim>\<open>actionHash\<close> as connectionId; an exception of \<^verbatim>\<open>actionHash\<close> is the
  outcome of both.
\<close>

theorem signL1Action_typed_data:
  "signL1Action encode getBytes keccak256 Signature_from w act va n mainnet =
     bind_err (actionHash encode getBytes keccak256 act va n) (\<lambda>h.
       signInner Signature_from w
         \<lparr>domain = \<lparr>chainId = JFin False 1337, name = ''Exchange'',
                     verifyingContract = ''0x0000000000000000000000000000000000000000'',
                     version = ''1''\<rparr>,
          types = [(''Agent'', [(''source'', ''string''), (''connectionId'', ''bytes32'')])],
          primaryType = ''Agent'',
          message = [(''source'', VStr (if mainnet then ''a'' else ''b'')),
                     (''connectionId'', VStr h)]\<rparr>)
   \<and> createL1ActionTypedData encode getBytes keccak256 act va n mainnet =
     bind_err (actionHash encode getBytes keccak256 act va n) (\<lambda>h.
       Inr \<lparr>domain = \<lparr>chainId = JFin False 1337, name = ''Exchange'',
                     verifyingContract = ''0x0000000000000000000000000000000000000000'',
                     version = ''1''\<rparr>,
          types = [(''Agent'', [(''source'', ''string''), (''connectionId'', ''bytes32'')])],
          primaryType = ''Agent'',
          message = [(''source'', VStr (if mainnet then ''a'' else ''b'')),
                     (''connectionId'', VStr h)],
          l1_action = act, l1_nonce = n, l1_vaultAddress = va, l1_hash = h\<rparr>)"
  by (simp add: signL1Action_def createL1ActionTypedData_def phantomDomain_def agentTypes_def
      constructPhantomAgent_def Let_def)

section \<open>The order type on the wire\<close>

lemma floatToWire_not_invalid: "floatToWire x \<noteq> Inl InvalidOrderType"
  by (simp add: floatToWire_def Let_def)

text \<open>
  C5.  With \<^verbatim>\<open>limit\<close> set, \<^verbatim>\<open>orderTypeToWire\<close> returns the limit variant with the same
  limit object; with \<^verbatim>\<open>trigger\<close> set (and no limit) the trigger variant with the same
  \<^verbatim>\<open>isMarket\<close> and \<^verbatim>\<open>tpsl\<close> and the price encoded by \<^verbatim>\<open>floatToWire\<close>, whose exception it
  passes on; it fails with the invalid-order-type error exactly when neither is set.
\<close>

theorem orderTypeToWire_cases:
  "(limit ot = Some l \<longrightarrow> orderTypeToWire Number ot = Inr \<lparr>limit = Some l, trigger = None\<rparr>)
   \<and> (limit ot = None \<and> trigger ot = Some t \<longrightarrow>
        orderTypeToWire Number ot =
          bind_err (floatToWire (Number (triggerPx t)))
            (\<lambda>px. Inr \<lparr>limit = None,
                        trigger = Some \<lparr>isMarket = isMarket t, triggerPx = px, tpsl = tpsl t\<rparr>\<rparr>))
   \<and> (orderTypeToWire Number ot = Inl InvalidOrderType
        \<longleftrightarrow> limit ot = None \<and> trigger ot = None)"
  using floatToWire_not_invalid
  by (auto simp: orderTypeToWire_def bind_err_def split: option.splits sum.splits)

theorem orderTypeToWire_cases_witness:
  "orderTypeToWire (\<lambda>x. x) \<lparr>limit = Some \<lparr>tif = ''Gtc''\<rparr>, trigger = None\<rparr>
     = Inr \<lparr>limit = Some \<lparr>tif = ''Gtc''\<rparr>, trigger = None\<rparr>
   \<and> orderTypeToWire (\<lambda>x. x)
       \<lparr>limit = None,
        trigger = Some \<lparr>isMarket = True, triggerPx = JFin False 2, tpsl = ''tp''\<rparr>\<rparr>
     = Inr \<lparr>limit = None,
            trigger = Some \<lparr>isMarket = True, triggerPx = ''2'', tpsl = ''tp''\<rparr>\<rparr>
   \<and> orderTypeToWire (\<lambda>x. x) \<lparr>limit = None, trigger = None\<rparr> = Inl InvalidOrderType"
  using orderTypeToWire_cases
          [of "\<lparr>limit = Some \<lparr>tif = ''Gtc''\<rparr>, trigger = None\<rparr>" "\<lparr>tif = ''Gtc''\<rparr>" "\<lambda>x. x"]
        orderTypeToWire_cases
          [of "\<lparr>limit = None,
               trigger = Some \<lparr>isMarket = True, triggerPx = JFin False 2, tpsl = ''tp''\<rparr>\<rparr>"
              _ "\<lambda>x. x" "\<lparr>isMarket = True, triggerPx = JFin False 2, tpsl = ''tp''\<rparr>"]
        orderTypeToWire_cases [of "\<lparr>limit = None, trigger = None :: jsnum trigger_type option\<rparr>" _ "\<lambda>x. x"]
  by (simp add: floatToWire_2 bind_err_def)

section \<open>What the user-signed functions do to the caller's action\<close>









section \<open>How often a batch invokes the resolver\<close>

lemma snd_run_all_Cons:
  "snd (run_all step st (x # xs)) = snd (run_all step (snd (step st x)) xs)"
  by (simp add: case_prod_beta)

lemma run_all_keeps:
  assumes "\<And>st x. f (snd (step st x)) = f st"
  shows "f (snd (run_all step st xs)) = f st"
proof (induction xs arbitrary: st)
  case Nil
  show ?case by simp
next
  case (Cons x xs)
  have "f (snd (run_all step st (x # xs))) = f (snd (step st x))"
    unfolding snd_run_all_Cons by (rule Cons.IH)
  then show ?case by (simp only: assms)
qed

lemma placeOrder_start_all:
  "assetIndexCache st = Map.empty \<Longrightarrow>
   run_all (placeOrder_start Number) st os = (map Waiting os, st\<lparr>lookups := lookups st @ map coin os\<rparr>)"
  by (induction os arbitrary: st) (simp_all add: placeOrder_start_def)

lemma placeOrdersTpSl_start_all:
  "run_all placeOrdersTpSl_start st os = (map Waiting os, st\<lparr>lookups := lookups st @ map coin os\<rparr>)"
  by (induction os arbitrary: st) (simp_all add: placeOrdersTpSl_start_def)

lemma placeOrder_resume_lookups:
  "lookups (snd (run_all (placeOrder_resume Number resolver) st ps)) = lookups st"
  by (rule run_all_keeps)
     (simp add: placeOrder_resume_def split: pending.splits option.splits)

lemma placeOrdersTpSl_resume_lookups:
  "lookups (snd (run_all (placeOrdersTpSl_resume Number resolver) st ps)) = lookups st"
  by (rule run_all_keeps)
     (simp add: placeOrdersTpSl_resume_def split: pending.splits option.splits)

lemma placeOrder_lookups:
  "lookups (snd (placeOrder_orderWires Number resolver os)) = map coin os"
  by (simp add: placeOrder_orderWires_def placeOrder_start_all batch_start_def case_prod_beta
      placeOrder_resume_lookups)

lemma placeOrdersTpSl_lookups:
  "lookups (snd (placeOrdersTpSl_orderWires Number resolver os)) = map coin os"
  by (simp add: placeOrdersTpSl_orderWires_def placeOrdersTpSl_start_all batch_start_def
      case_prod_beta placeOrdersTpSl_resume_lookups)

text \<open>
  C6.  Evaluated at a batch of two orders of the same coin, \<^verbatim>\<open>placeOrdersTpSl\<close> invokes the
  resolver twice, once an order, for one distinct coin: its callback awaits
  \<^verbatim>\<open>this.getAssetIndex(o.coin)\<close> before it looks at anything, and never reads the cache.
  By \<open>placeOrder_lookups\<close> the same holds of \<^verbatim>\<open>placeOrder\<close> and \<^verbatim>\<open>getTxObjectPlaceOrder\<close>,
  whose callbacks all read the cache before any of them has stored into it.
\<close>

theorem placeOrdersTpSl_repeated_coin:
  "lookups (snd (placeOrdersTpSl_orderWires (\<lambda>x. x) (\<lambda>s. Some (JFin False 5))
      [\<lparr>coin = ''ETH'', is_buy = True, sz = JFin False 1, limit_px = JFin False 2,
        order_type = \<lparr>limit = Some \<lparr>tif = ''Gtc''\<rparr>, trigger = None\<rparr>,
        reduce_only = False, cloid = None\<rparr>,
       \<lparr>coin = ''ETH'', is_buy = False, sz = JFin False 1, limit_px = JFin False 2,
        order_type = \<lparr>limit = Some \<lparr>tif = ''Gtc''\<rparr>, trigger = None\<rparr>,
        reduce_only = True, cloid = None\<rparr>]))
     = [''ETH'', ''ETH'']"
  by (simp add: placeOrdersTpSl_lookups)

section \<open>The buffer that \<^verbatim>\<open>actionHash\<close> hashes\<close>

lemma byte_of_word: "(ucast (drop_bit k (w :: 64 word)) :: u8) = of_nat (unat w div 2 ^ k mod 256)"
proof -
  have "unat (drop_bit k w) = unat w div 2 ^ k"
    unfolding unat_drop_bit_eq by (simp add: drop_bit_eq_div)
  then have "unat (ucast (drop_bit k w) :: u8) = unat (of_nat (unat w div 2 ^ k mod 256) :: u8)"
    by (simp add: unsigned_ucast_eq take_bit_eq_mod unat_of_nat)
  then show ?thesis by (simp only: word_unat_eq_iff)
qed

lemma upt_8: "[0..<8] = [0, 1, 2, 3, 4, 5, 6, 7 :: nat]"
  by (simp add: upt_conv_Cons)

lemma be_bytes64_list:
  "be_bytes64 w = map (\<lambda>k. of_nat (unat w div 2 ^ k mod 256)) [56, 48, 40, 32, 24, 16, 8, 0]"
  by (simp add: be_bytes64_def upt_8 byte_of_word)


lemma length_be_encode [simp]: "length (be_encode k n) = k"
  by (induction k arbitrary: n) simp_all

lemma be_decode_snoc: "be_decode (bs @ [b]) = be_decode bs * 256 + unat b"
  by (simp add: be_decode_def)

lemma be_decode_encode: "be_decode (be_encode k n) = n mod 256 ^ k"
proof (induction k arbitrary: n)
  case 0
  show ?case by (simp add: be_decode_def)
next
  case (Suc k)
  have "be_decode (be_encode (Suc k) n) = (n div 256 mod 256 ^ k) * 256 + n mod 256"
    by (simp add: be_decode_snoc Suc.IH unat_of_nat)
  also have "\<dots> = n mod 256 ^ Suc k"
    by (simp add: mod_mult2_eq)
  finally show ?case .
qed

lemma be_encode_8:
  "be_encode 8 n = map (\<lambda>k. of_nat (n div 2 ^ k mod 256)) [56, 48, 40, 32, 24, 16, 8, 0]"
proof -
  have e: "(8::nat) = Suc (Suc (Suc (Suc (Suc (Suc (Suc (Suc 0)))))))"
    by simp
  have "be_encode (Suc (Suc (Suc (Suc (Suc (Suc (Suc (Suc 0)))))))) n
          = map (\<lambda>k. of_nat (n div 2 ^ k mod 256)) [56, 48, 40, 32, 24, 16, 8, 0]"
    by (simp add: div_mult2_eq [symmetric])
  then show ?thesis by (subst e)
qed

lemma be_bytes64_encode: "be_bytes64 w = be_encode 8 (unat w)"
  by (simp only: be_bytes64_list be_encode_8)


lemma typed_array_set_zeros:
  "length src \<le> k \<Longrightarrow>
   typed_array_set (pre @ replicate k 0) src (length pre)
     = Inr (pre @ src @ replicate (k - length src) 0)"
  by (simp add: typed_array_set_def)

lemma typed_array_set_overflow:
  "k < length src \<Longrightarrow> typed_array_set (pre @ replicate k 0) src (length pre) = Inl RangeError"
  by (simp add: typed_array_set_def)

lemma setBigUint64_zeros:
  "8 \<le> k \<Longrightarrow>
   setBigUint64 (pre @ replicate k 0) (length pre) v
     = Inr (pre @ be_encode 8 (nat (v mod 2 ^ 64)) @ replicate (k - 8) 0)"
  by (simp add: setBigUint64_def be_bytes64_encode length_be_encode unat_eq_nat_uint
      uint_word_of_int)

lemma setUint8_zeros:
  "1 \<le> k \<Longrightarrow>
   setUint8 (pre @ replicate k 0) (length pre) b = Inr (pre @ [b] @ replicate (k - 1) 0)"
  by (simp add: setUint8_def)

lemma actionHash_eq:
  assumes "encode act = Inr mp"
  shows "actionHash encode getBytes keccak256 act va nonce =
     bind_err (BigInt nonce) (\<lambda>v.
     bind_err (case va of
                 None \<Rightarrow> Inr [0]
               | Some a \<Rightarrow> bind_err (getBytes a) (\<lambda>bs.
                   if 20 < length bs then Inl RangeError
                   else Inr (1 # bs @ replicate (20 - length bs) 0)))
       (\<lambda>tail. Inr (keccak256 (mp @ be_encode 8 (nat (v mod 2 ^ 64)) @ tail))))"
proof (cases "BigInt nonce")
  case (Inl e)
  then show ?thesis
    using typed_array_set_zeros [of mp _ "[]"]
    by (simp add: actionHash_def assms bind_err_def Let_def)
next
  case (Inr v)
  have s1: "typed_array_set (replicate (length mp + k) 0) mp 0 = Inr (mp @ replicate k 0)" for k
    using typed_array_set_zeros [of mp "length mp + k" "[]"] by simp
  have s2: "setBigUint64 (mp @ replicate k 0) (length mp) v
              = Inr (mp @ be_encode 8 (nat (v mod 2 ^ 64)) @ replicate (k - 8) 0)" if "8 \<le> k" for k
    using that by (rule setBigUint64_zeros)
  let ?be = "be_encode 8 (nat (v mod 2 ^ 64))"
  have len: "length (mp @ ?be) = length mp + 8" by (simp add: length_be_encode)
  have s3: "setUint8 (mp @ ?be @ replicate k 0) (length mp + 8) b
              = Inr (mp @ ?be @ [b] @ replicate (k - 1) 0)" if "1 \<le> k" for k b
    using setUint8_zeros [of k "mp @ ?be" b] that by (simp add: length_be_encode)
  have s4: "typed_array_set (mp @ ?be @ [1] @ replicate 20 0) bs (length mp + 9)
              = (if 20 < length bs then Inl RangeError
                 else Inr (mp @ ?be @ [1] @ bs @ replicate (20 - length bs) 0))" for bs
    using typed_array_set_zeros [of bs 20 "mp @ ?be @ [1]"]
          typed_array_set_overflow [of 20 bs "mp @ ?be @ [1]"]
    by (simp add: len)
  show ?thesis
  proof (cases va)
    case None
    then show ?thesis
      using s1 [of 9] s2 [of 9] s3 [of 1 0]
      by (simp add: actionHash_def assms Inr bind_err_def Let_def)
  next
    case (Some a)
    then show ?thesis
      using s1 [of 29] s2 [of 29] s3 [of 21 1] s4
      by (simp add: actionHash_def assms Inr bind_err_def Let_def split: sum.splits)
  qed
qed


lemma BigInt_Inr_iff:
  "BigInt x = Inr v
     \<longleftrightarrow> (\<exists>s m. x = JFin s m \<and> m \<in> \<int> \<and> v = (if s then - \<lfloor>m\<rfloor> else \<lfloor>m\<rfloor>))"
  by (cases x) auto

lemma BigInt_Inl: "BigInt x = Inl e \<Longrightarrow> e = RangeError"
  by (cases x) (auto split: if_splits)

text \<open>
  C1, as stated: for every nonce \<^verbatim>\<open>actionHash\<close> hashes the serialized action followed by the
  eight bytes of the nonce, the flag and the address.  A nonce that is no integer has no
  such bytes: at the nonce 1.5 \<^verbatim>\<open>BigInt(nonce)\<close> throws a RangeError and nothing is
  hashed.
\<close>

theorem actionHash_fractional_nonce:
  "actionHash (\<lambda>a. Inr [129]) (\<lambda>s. Inr []) (\<lambda>d. d) () None (JFin False (3 / 2))
     = Inl RangeError"
  by (simp add: actionHash_eq [where mp = "[129]"] bind_err_def)

text \<open>
  C1, amended.  For every action that msgpack serializes, every integer nonce and every
  vault address that is \<^verbatim>\<open>null\<close> or has 20 bytes, \<^verbatim>\<open>actionHash\<close> applies \<^verbatim>\<open>keccak256\<close> to
  exactly the serialized action, then the big-endian encoding in 8 bytes of the nonce
  modulo \<open>2 ^ 64\<close>, then the flag byte (0 without a vault address, 1 with one), then, with
  a vault address only, its 20 bytes; the buffer has 9 bytes more than the serialization
  without a vault address and 29 more with one.
\<close>

theorem actionHash_layout:
  assumes "encode act = Inr mp" and "BigInt nonce = Inr v"
  shows "actionHash encode getBytes keccak256 act None nonce
           = Inr (keccak256 (mp @ be_encode 8 (nat (v mod 2 ^ 64)) @ [0]))
         \<and> length (mp @ be_encode 8 (nat (v mod 2 ^ 64)) @ [0 :: u8]) = length mp + 9
         \<and> (getBytes a = Inr bs \<and> length bs = 20 \<longrightarrow>
              actionHash encode getBytes keccak256 act (Some a) nonce
                = Inr (keccak256 (mp @ be_encode 8 (nat (v mod 2 ^ 64)) @ [1] @ bs))
              \<and> length (mp @ be_encode 8 (nat (v mod 2 ^ 64)) @ [1 :: u8] @ bs)
                  = length mp + 29)"
proof -
  note eq = actionHash_eq [where encode = encode and act = act and mp = mp, OF assms(1)]
  show ?thesis by (simp add: eq assms(2) bind_err_def)
qed

theorem actionHash_layout_witness:
  "actionHash (\<lambda>a. Inr [129]) (\<lambda>s. Inr (replicate 20 171)) (\<lambda>d. d) () None
       (JFin False 1700000000000)
     = Inr [129, 0, 0, 1, 139, 207, 229, 104, 0, 0]
   \<and> actionHash (\<lambda>a. Inr [129]) (\<lambda>s. Inr (replicate 20 171)) (\<lambda>d. d) () (Some ''0xab'')
       (JFin False 1700000000000)
     = Inr ([129, 0, 0, 1, 139, 207, 229, 104, 0, 1] @ replicate 20 171)"
  using actionHash_layout
          [where encode = "\<lambda>a. Inr [129]" and act = "()" and mp = "[129]"
             and nonce = "JFin False 1700000000000" and v = 1700000000000
             and getBytes = "\<lambda>s. Inr (replicate 20 171)" and a = "''0xab''"
             and bs = "replicate 20 171" and ?keccak256.0 = "\<lambda>d. d"]
  by (simp add: be_encode_8)

text \<open>
  C10.  \<^verbatim>\<open>actionHash\<close> goes through only for a nonce that is an integer.  For an integer
  nonce \<open>v\<close>, negative ones too, the eight bytes after the serialized action are the
  big-endian encoding of \<open>v mod 2 ^ 64\<close> (so a nonce out of range wraps and does not fail),
  which is \<open>v\<close> itself for \<open>0 \<le> v < 2 ^ 64\<close>; for any other nonce (a fraction, NaN, an
  infinity) the call throws the RangeError of \<^verbatim>\<open>BigInt\<close>, before the vault address is
  looked at.
\<close>

theorem actionHash_nonce:
  assumes "encode act = Inr mp"
  shows "(BigInt nonce = Inr v \<longrightarrow>
            actionHash encode getBytes keccak256 act va nonce
              = bind_err (case va of
                            None \<Rightarrow> Inr [0]
                          | Some a \<Rightarrow> bind_err (getBytes a) (\<lambda>bs.
                              if 20 < length bs then Inl RangeError
                              else Inr (1 # bs @ replicate (20 - length bs) 0)))
                  (\<lambda>tail. Inr (keccak256 (mp @ be_encode 8 (nat (v mod 2 ^ 64)) @ tail)))
            \<and> length (be_encode 8 (nat (v mod 2 ^ 64))) = 8
            \<and> int (be_decode (be_encode 8 (nat (v mod 2 ^ 64)))) = v mod 2 ^ 64
            \<and> (0 \<le> v \<and> v < 2 ^ 64 \<longrightarrow> int (be_decode (be_encode 8 (nat (v mod 2 ^ 64)))) = v))
         \<and> ((\<forall>k. BigInt nonce \<noteq> Inr k) \<longrightarrow>
              actionHash encode getBytes keccak256 act va nonce = Inl RangeError)
         \<and> (BigInt nonce = Inr v
              \<longleftrightarrow> (\<exists>s m. nonce = JFin s m \<and> m \<in> \<int>
                          \<and> v = (if s then - \<lfloor>m\<rfloor> else \<lfloor>m\<rfloor>)))"
proof -
  note eq = actionHash_eq [where encode = encode and act = act and mp = mp, OF assms]
  have dec: "int (be_decode (be_encode 8 (nat (v mod 2 ^ 64)))) = v mod 2 ^ 64"
  proof -
    have "nat (v mod 2 ^ 64) < 2 ^ 64"
      by (simp add: nat_less_iff)
    then have "be_decode (be_encode 8 (nat (v mod 2 ^ 64))) = nat (v mod 2 ^ 64)"
      by (simp add: be_decode_encode)
    then show ?thesis by simp
  qed
  have exact: "int (be_decode (be_encode 8 (nat (v mod 2 ^ 64)))) = v"
    if "0 \<le> v \<and> v < 2 ^ 64"
    using that dec by simp
  have ok: "actionHash encode getBytes keccak256 act va nonce
              = bind_err (case va of
                            None \<Rightarrow> Inr [0]
                          | Some a \<Rightarrow> bind_err (getBytes a) (\<lambda>bs.
                              if 20 < length bs then Inl RangeError
                              else Inr (1 # bs @ replicate (20 - length bs) 0)))
                  (\<lambda>tail. Inr (keccak256 (mp @ be_encode 8 (nat (v mod 2 ^ 64)) @ tail)))"
    if "BigInt nonce = Inr v"
    by (simp add: eq that bind_err_def)
  have fail: "actionHash encode getBytes keccak256 act va nonce = Inl RangeError"
    if "\<forall>k. BigInt nonce \<noteq> Inr k"
  proof -
    from that obtain e where "BigInt nonce = Inl e" by (cases "BigInt nonce") auto
    then show ?thesis
      using BigInt_Inl [of nonce e] by (simp add: eq bind_err_def)
  qed
  have len: "length (be_encode 8 (nat (v mod 2 ^ 64))) = 8"
    by simp
  show ?thesis
    using dec exact ok fail len BigInt_Inr_iff [of nonce v] by blast
qed

theorem actionHash_nonce_witness:
  "actionHash (\<lambda>a. Inr [129]) (\<lambda>s. Inr []) (\<lambda>d. d) () None (JFin True 1)
     = Inr [129, 255, 255, 255, 255, 255, 255, 255, 255, 0]
   \<and> actionHash (\<lambda>a. Inr [129]) (\<lambda>s. Inr []) (\<lambda>d. d) () None (JFin False (2 ^ 64))
     = Inr [129, 0, 0, 0, 0, 0, 0, 0, 0, 0]
   \<and> actionHash (\<lambda>a. Inr [129]) (\<lambda>s. Inr []) (\<lambda>d. d) () None (JFin False 258)
     = Inr [129, 0, 0, 0, 0, 0, 0, 1, 2, 0]
   \<and> be_decode [0, 0, 0, 0, 0, 0, 1, 2] = 258
   \<and> actionHash (\<lambda>a. Inr [129]) (\<lambda>s. Inr []) (\<lambda>d. d) () None (JFin False (1 / 2))
     = Inl RangeError
   \<and> actionHash (\<lambda>a. Inr [129]) (\<lambda>s. Inr []) (\<lambda>d. d) () None JNaN = Inl RangeError"
  using actionHash_nonce
          [where encode = "\<lambda>a. Inr [129]" and act = "()" and mp = "[129]"
             and nonce = "JFin True 1" and v = "- 1" and getBytes = "\<lambda>s. Inr []"
             and ?keccak256.0 = "\<lambda>d. d" and va = None]
        actionHash_nonce
          [where encode = "\<lambda>a. Inr [129]" and act = "()" and mp = "[129]"
             and nonce = "JFin False (2 ^ 64)" and v = "2 ^ 64" and getBytes = "\<lambda>s. Inr []"
             and ?keccak256.0 = "\<lambda>d. d" and va = None]
        actionHash_nonce
          [where encode = "\<lambda>a. Inr [129]" and act = "()" and mp = "[129]"
             and nonce = "JFin False 258" and v = "258" and getBytes = "\<lambda>s. Inr []"
             and ?keccak256.0 = "\<lambda>d. d" and va = None]
        actionHash_nonce
          [where encode = "\<lambda>a. Inr [129]" and act = "()" and mp = "[129]"
             and nonce = "JFin False (1 / 2)" and v = "0" and getBytes = "\<lambda>s. Inr []"
             and ?keccak256.0 = "\<lambda>d. d" and va = None]
        actionHash_nonce
          [where encode = "\<lambda>a. Inr [129]" and act = "()" and mp = "[129]"
             and nonce = "JNaN" and v = "0" and getBytes = "\<lambda>s. Inr []"
             and ?keccak256.0 = "\<lambda>d. d" and va = None]
  by (simp add: be_encode_8 bind_err_def be_decode_def)

section \<open>The decimal wire encoder on particular numbers\<close>

lemmas parse_ev = parseFloat_def is_ws_def is_digit_def digits_val_def digit_val_def
  exponent_part_def pow10_def Let_def

lemmas fixed_ev = fixedNotation_def pad_point_def digits10.simps digit_char_def replicate_if Let_def

lemma floatToWire_ok:
  assumes "toFixed x 8 = r" and "parseFloat r = y"
      and "\<not> js_ge (Math_abs (js_sub y x)) (js_lit (1 / 10 ^ 12))"
      and "replace_trailing_zeros r = n"
  shows "floatToWire x = Inr (if n = ''-0'' then ''0'' else n)"
  using assms by (simp add: floatToWire_def Let_def)

lemma floatToWire_fail:
  assumes "toFixed x 8 = r" and "parseFloat r = y"
      and "js_ge (Math_abs (js_sub y x)) (js_lit (1 / 10 ^ 12))"
  shows "floatToWire x = Inl FloatToWireRounding"
  using assms by (simp add: floatToWire_def Let_def)

lemma lit_1e_12: "js_lit (1 / 10 ^ 12) = JFin False (4951760157141521 / 4951760157141521099596496896)"
  by (simp add: num_ev)

lemma px_toFixed: "toFixed (JFin False (1374457405802569 / 549755813888)) 8 = ''2500.12345678''"
  by (simp add: fixed_ev)

lemma px_parse_1: "parseFloat ''2500.12345678'' = round_double False (250012345678 / 10 ^ 8)"
  by (simp add: parse_ev)

lemma px_parse_2: "round_double False (250012345678 / 10 ^ 8) = JFin False (1374457405802569 / 549755813888)"
  by (simp add: num_ev)

lemma px_strip: "replace_trailing_zeros ''2500.12345678'' = ''2500.12345678''"
  by (simp add: replace_trailing_zeros_def)

lemma no_loss_same:
  "\<not> js_ge (Math_abs (js_sub (JFin s m) (JFin s m))) (js_lit (1 / 10 ^ 12))"
  unfolding lit_1e_12 by (simp add: signed_def)

lemma floatToWire_px:
  "floatToWire (JFin False (1374457405802569 / 549755813888)) = Inr ''2500.12345678''"
  using floatToWire_ok [OF px_toFixed px_parse_1 [unfolded px_parse_2] no_loss_same px_strip]
  by simp

lemma one_toFixed: "toFixed (JFin False 1) 8 = ''1.00000000''"
  by (simp add: fixed_ev)

lemma one_parse_1: "parseFloat ''1.00000000'' = round_double False (100000000 / 10 ^ 8)"
  by (simp add: parse_ev)

lemma one_parse_2: "round_double False (100000000 / 10 ^ 8) = JFin False 1"
  by (simp add: num_ev)

lemma one_strip: "replace_trailing_zeros ''1.00000000'' = ''1''"
  by (simp add: replace_trailing_zeros_def)

lemma floatToWire_1: "floatToWire (JFin False 1) = Inr ''1''"
  using floatToWire_ok [OF one_toFixed one_parse_1 [unfolded one_parse_2] no_loss_same one_strip]
  by simp

lemma half_toFixed: "toFixed (JFin False (3 / 2)) 8 = ''1.50000000''"
  by (simp add: fixed_ev)

lemma half_parse_1: "parseFloat ''1.50000000'' = round_double False (150000000 / 10 ^ 8)"
  by (simp add: parse_ev)

lemma half_parse_2: "round_double False (150000000 / 10 ^ 8) = JFin False (3 / 2)"
  by (simp add: num_ev)

lemma half_strip: "replace_trailing_zeros ''1.50000000'' = ''1.5''"
  by (simp add: replace_trailing_zeros_def)

lemma floatToWire_1_5: "floatToWire (JFin False (3 / 2)) = Inr ''1.5''"
  using floatToWire_ok [OF half_toFixed half_parse_1 [unfolded half_parse_2] no_loss_same half_strip]
  by simp

lemma negzero_toFixed: "toFixed (JFin True 0) 8 = ''0.00000000''"
  by (simp add: fixed_ev)

lemma zero_parse_1: "parseFloat ''0.00000000'' = round_double False (0 / 10 ^ 8)"
  by (simp add: parse_ev)

lemma zero_strip: "replace_trailing_zeros ''0.00000000'' = ''0''"
  by (simp add: replace_trailing_zeros_def)

lemma negzero_no_loss:
  "\<not> js_ge (Math_abs (js_sub (round_double False (0 / 10 ^ 8)) (JFin True 0))) (js_lit (1 / 10 ^ 12))"
  unfolding lit_1e_12 by (simp add: signed_def round_double_def)

lemma floatToWire_negzero: "floatToWire (JFin True 0) = Inr ''0''"
  using floatToWire_ok [OF negzero_toFixed zero_parse_1 negzero_no_loss zero_strip]
  by simp

text \<open>The number written 2500.123456785 loses more than \<open>1e-12\<close> at eight decimals.\<close>

lemma lossy_lit: "js_lit (2500123456785 / 10 ^ 9) = JFin False (5497829623221271 / 2199023255552)"
  by (simp add: num_ev)

lemma lossy_toFixed: "toFixed (JFin False (5497829623221271 / 2199023255552)) 8 = ''2500.12345679''"
  by (simp add: fixed_ev)

lemma lossy_parse_1: "parseFloat ''2500.12345679'' = round_double False (250012345679 / 10 ^ 8)"
  by (simp add: parse_ev)

lemma lossy_parse_2: "round_double False (250012345679 / 10 ^ 8) = JFin False (2748914811616133 / 1099511627776)"
  by (simp add: num_ev)

lemma lossy_loss:
  "js_ge (Math_abs (js_sub (JFin False (2748914811616133 / 1099511627776))
                            (JFin False (5497829623221271 / 2199023255552))))
         (js_lit (1 / 10 ^ 12))"
  unfolding lit_1e_12 by (simp add: num_ev)

lemma floatToWire_lossy: "floatToWire (js_lit (2500123456785 / 10 ^ 9)) = Inl FloatToWireRounding"
  unfolding lossy_lit
  by (rule floatToWire_fail [OF lossy_toFixed lossy_parse_1 [unfolded lossy_parse_2] lossy_loss])


lemma px_lit: "js_lit (250012345678 / 10 ^ 8) = JFin False (1374457405802569 / 549755813888)"
  by (simp add: num_ev)

text \<open>The number written 1e30: \<^verbatim>\<open>toFixed\<close> gives exponent notation from \<open>10 ^ 21\<close> on.\<close>

lemma big_lit: "js_lit (10 ^ 30) = JFin False 1000000000000000019884624838656"
  by (simp add: num_ev)

lemma big_digits: "length (digits10 1000000000000000019884624838656) = 31"
  by (simp add: digits10.simps)

lemma big_choices: "sci_choices 1000000000000000019884624838656 (Suc 0) = [(31, Suc 0)]"
  unfolding sci_choices_def Let_def
  by (simp add: big_digits) (simp add: num_ev)

lemma big_search: "sci_search 1000000000000000019884624838656 (Suc 0) = Some (31, Suc 0, Suc 0)"
  by (simp add: sci_search.simps big_choices)

lemma big_toFixed: "toFixed (JFin False 1000000000000000019884624838656) 8 = ''1e+30''"
  by (simp add: exponentNotation_def big_search digits10.simps digit_char_def)

lemma big_parse_1: "parseFloat ''1e+30'' = round_double False (1 * 10 ^ 30)"
  by (simp add: parse_ev)

lemma big_parse_2: "round_double False (1 * 10 ^ 30) = JFin False 1000000000000000019884624838656"
  by (simp add: num_ev)

lemma big_strip: "replace_trailing_zeros ''1e+30'' = ''1e+3''"
  by (simp add: replace_trailing_zeros_def)

lemma parse_1e3: "parseFloat ''1e+3'' = JFin False 1000"
  by (simp add: parse_ev) (simp add: num_ev)

text \<open>
  Below \<open>10 ^ 21\<close> \<^verbatim>\<open>toFixed\<close> is fixed notation, which ends in a digit, and on such a
  string the replacement strips what the specification says: there \<open>floatToWire\<close> is the
  encoder of the specification.
\<close>

lemma digit_char_not_point: "d < 10 \<Longrightarrow> digit_char d \<noteq> CHR ''.''"
proof -
  assume "d < 10"
  then have "''0123456789'' ! d \<in> set ''0123456789''"
    by (intro nth_mem) simp
  then show ?thesis
    unfolding digit_char_def by auto
qed

lemma digits10_last: "digits10 n \<noteq> [] \<and> last (digits10 n) = digit_char (n mod 10)"
  by (subst (1 2) digits10.simps) simp

lemma pad_point_last:
  assumes "m \<noteq> []" and "0 < f"
  shows "pad_point f m \<noteq> [] \<and> last (pad_point f m) = last m"
proof -
  define m' where "m' = (if length m \<le> f then replicate (f + 1 - length m) CHR ''0'' @ m else m)"
  have k: "f < length m'" and l: "last m' = last m"
    using assms by (auto simp: m'_def)
  have p: "pad_point f m = take (length m' - f) m' @ ''.'' @ drop (length m' - f) m'"
    using assms by (simp add: pad_point_def m'_def Let_def)
  have d: "drop (length m' - f) m' \<noteq> []"
    using k assms by simp
  have "last (drop (length m' - f) m') = last m'"
    using k assms by (intro last_drop) simp
  with d l show ?thesis by (simp add: p)
qed

lemma fixedNotation_last:
  "fixedNotation 8 m \<noteq> [] \<and> last (fixedNotation 8 m) \<noteq> CHR ''.''"
  using pad_point_last [of "digits10 (nat \<lfloor>m * 10 ^ 8 + 1 / 2\<rfloor>)" 8]
        digits10_last [of "nat \<lfloor>m * 10 ^ 8 + 1 / 2\<rfloor>"]
        digit_char_not_point [of "nat \<lfloor>m * 10 ^ 8 + 1 / 2\<rfloor> mod 10"]
  by (simp add: fixedNotation_def)

lemma replace_trailing_zeros_spec:
  assumes "s \<noteq> []" and "last s \<noteq> CHR ''.''"
  shows "replace_trailing_zeros s = strip_zeros_spec s"
proof (cases "takeWhile (\<lambda>c. c = CHR ''0'') (rev s) = []")
  case True
  then have "dropWhile (\<lambda>c. c = CHR ''0'') (rev s) = rev s"
    by (metis takeWhile_dropWhile_id append_Nil)
  with True assms show ?thesis
    by (simp add: replace_trailing_zeros_def strip_zeros_spec_def Let_def)
next
  case False
  then show ?thesis
    by (simp add: replace_trailing_zeros_def strip_zeros_spec_def Let_def last_rev butlast_rev)
qed

lemma floatToWire_below_1e21:
  assumes "m < 10 ^ 21"
  shows "floatToWire (JFin neg m) = decimalToWire_spec neg m"
proof -
  let ?s = "(if neg \<and> 0 < m then ''-'' else []) @ fixedNotation 8 m"
  have t: "toFixed (JFin neg m) 8 = ?s"
    using assms by simp
  have "?s \<noteq> []" and "last ?s \<noteq> CHR ''.''"
    using fixedNotation_last [of m] by simp_all
  then have "replace_trailing_zeros ?s = strip_zeros_spec ?s"
    by (rule replace_trailing_zeros_spec)
  then show ?thesis
    unfolding floatToWire_def decimalToWire_spec_def t Let_def by simp
qed

text \<open>
  C3.  Evaluated at the finite number written 1e30, \<^verbatim>\<open>floatToWire\<close> returns "1e+3":
  \<^verbatim>\<open>toFixed(8)\<close> of a number from \<open>10 ^ 21\<close> on is exponent notation, here "1e+30", it parses
  back to the number itself, and the replacement of the final zeros removes the zero of the
  exponent.  The result is not the number with eight fraction digits and the zeros
  stripped, and read back (\<open>parse_1e3\<close>) it is 1000.  For a magnitude below \<open>10 ^ 21\<close>
  the encoder does what the claim says (\<open>floatToWire_below_1e21\<close>, and the lemmas
  \<open>floatToWire_negzero\<close>, \<open>floatToWire_1_5\<close>, \<open>floatToWire_2\<close> and \<open>floatToWire_lossy\<close> for
  the four numbers it names).
\<close>

theorem floatToWire_exponent_notation:
  "floatToWire (js_lit (10 ^ 30)) = Inr ''1e+3''"
  unfolding big_lit
  using floatToWire_ok [OF big_toFixed big_parse_1 [unfolded big_parse_2] no_loss_same big_strip]
  by simp

section \<open>The order on the wire\<close>

text \<open>
  C4.  \<^verbatim>\<open>orderToWire\<close> returns the properties a (the asset index), b (the side), p and s
  (price and size as \<^verbatim>\<open>floatToWire\<close> encodes them), r (the reduce-only flag) and t (the
  order type as \<^verbatim>\<open>orderTypeToWire\<close> encodes it) in this order, followed by c, the cloid,
  exactly when the order has one; without a cloid there is no property c at all.  An
  exception of an encoder is the outcome of the call.  It is then evaluated at the scenario
  of the specification: the ETH order at the price written 2500.12345678 with asset index 5.
\<close>

theorem orderToWire_structure:
  "orderToWire Number ord asset =
     bind_err (floatToWire (limit_px ord)) (\<lambda>p.
     bind_err (floatToWire (sz ord)) (\<lambda>s.
     bind_err (orderTypeToWire Number (order_type ord)) (\<lambda>t.
       Inr ([(''a'', WNum asset), (''b'', WBool (is_buy ord)), (''p'', WStr p),
             (''s'', WStr s), (''r'', WBool (reduce_only ord)), (''t'', WType t)]
            @ (case cloid ord of None \<Rightarrow> [] | Some c \<Rightarrow> [(''c'', WStr c)])))))
   \<and> (orderToWire Number ord asset = Inr w \<longrightarrow>
        map fst w = [''a'', ''b'', ''p'', ''s'', ''r'', ''t'']
                    @ (case cloid ord of None \<Rightarrow> [] | Some c \<Rightarrow> [''c''])
        \<and> map_of w ''c'' = map_option WStr (cloid ord))"
  by (auto simp: orderToWire_def bind_err_def Let_def split: sum.splits option.splits)

theorem orderToWire_structure_witness:
  "orderToWire (\<lambda>x. x)
     \<lparr>coin = ''ETH'', is_buy = True, sz = JFin False 1,
      limit_px = js_lit (250012345678 / 10 ^ 8),
      order_type = \<lparr>limit = Some \<lparr>tif = ''Gtc''\<rparr>, trigger = None\<rparr>,
      reduce_only = False, cloid = None\<rparr> (JFin False 5)
   = Inr [(''a'', WNum (JFin False 5)), (''b'', WBool True), (''p'', WStr ''2500.12345678''),
          (''s'', WStr ''1''), (''r'', WBool False),
          (''t'', WType \<lparr>limit = Some \<lparr>tif = ''Gtc''\<rparr>, trigger = None\<rparr>)]"
  using orderToWire_structure
          [where Number = "\<lambda>x. x" and asset = "JFin False 5"
             and ord = "\<lparr>coin = ''ETH'', is_buy = True, sz = JFin False 1,
                          limit_px = js_lit (250012345678 / 10 ^ 8),
                          order_type = \<lparr>limit = Some \<lparr>tif = ''Gtc''\<rparr>, trigger = None\<rparr>,
                          reduce_only = False, cloid = None\<rparr>"]
  unfolding px_lit
  by (simp add: floatToWire_px floatToWire_1 orderTypeToWire_def bind_err_def)

section \<open>The scaled integers\<close>

subsection \<open>Binary64 rounding\<close>

text \<open>
  \<open>ilog2\<close> is the binary exponent, so that \<open>round_double\<close> keeps every value
  \<open>k * 2 ^ e\<close> with \<open>k < 2 ^ 53\<close> and \<open>e \<ge> -1074\<close> as it is, returns only such values,
  and moves a value by half a unit of the last place at most.
\<close>

lemma pow2_powi: "pow2 e = 2 powi e"
  by (simp add: pow2_def power_int_def power_inverse inverse_eq_divide power_one_over)

lemma pow2_pos: "0 < pow2 e"
  by (simp add: pow2_powi)

lemma pow2_add: "pow2 (a + b) = pow2 a * pow2 b"
  by (simp add: pow2_powi power_int_add)

lemma pow2_diff: "pow2 (a - b) = pow2 a / pow2 b"
  by (simp add: pow2_powi power_int_diff)

lemma pow2_nat: "pow2 (int n) = 2 ^ n"
  by (simp add: pow2_def)

lemma pow2_neg_nat: "pow2 (- int n) = 1 / 2 ^ n"
  by (simp add: pow2_def)

lemma pow2_mono: "a \<le> b \<Longrightarrow> pow2 a \<le> pow2 b"
  by (simp add: pow2_powi power_int_increasing)

lemma pow2_less_imp: "pow2 a < pow2 b \<Longrightarrow> a < b"
  using pow2_mono [of b a] by (cases "a < b") auto

lemma bitlen_pos: "0 < n \<Longrightarrow> 0 < bitlen n"
  by (subst bitlen.simps) simp

lemma bitlen_bounds: "0 < n \<Longrightarrow> 2 ^ (bitlen n - 1) \<le> n \<and> n < 2 ^ bitlen n"
proof (induction n rule: bitlen.induct)
  case (1 n)
  have b: "bitlen n = Suc (bitlen (n div 2))"
    using 1(2) by (subst bitlen.simps) simp
  show ?case
  proof (cases "n div 2 = 0")
    case True
    with 1(2) have "n = 1" by (simp add: div_eq_0_iff)
    then show ?thesis by (simp add: bitlen.simps)
  next
    case False
    then have ih: "2 ^ (bitlen (n div 2) - 1) \<le> n div 2" "n div 2 < 2 ^ bitlen (n div 2)"
      using 1 by simp_all
    have pos: "0 < bitlen (n div 2)"
      using False by (simp add: bitlen_pos)
    then have "(2::nat) ^ bitlen (n div 2) = 2 * 2 ^ (bitlen (n div 2) - 1)"
      by (cases "bitlen (n div 2)") simp_all
    with ih(1) have lo: "2 ^ bitlen (n div 2) \<le> n" by linarith
    from ih(2) have "n < 2 * 2 ^ bitlen (n div 2)" by linarith
    with lo show ?thesis by (simp add: b)
  qed
qed

lemma bitlen_bounds_real:
  assumes "0 < n"
  shows "(2::real) ^ (bitlen n - 1) \<le> real n \<and> real n + 1 \<le> 2 ^ bitlen n"
proof -
  from bitlen_bounds [OF assms] have "2 ^ (bitlen n - 1) \<le> n" and "Suc n \<le> 2 ^ bitlen n"
    by simp_all
  then have "real (2 ^ (bitlen n - 1)) \<le> real n" and "real (Suc n) \<le> real (2 ^ bitlen n)"
    by (simp_all only: of_nat_le_iff)
  then show ?thesis by simp
qed

lemma ilog2_bounds:
  assumes "0 < q"
  shows "pow2 (ilog2 q) \<le> q \<and> q < pow2 (ilog2 q + 1)"
proof (cases "1 \<le> q")
  case True
  define n where "n = nat \<lfloor>q\<rfloor>"
  have n: "0 < n" "real n \<le> q" "q < real n + 1"
    using True by (simp_all add: n_def) (linarith+)?
  have i: "ilog2 q = int (bitlen n) - 1"
    using True by (simp add: ilog2_def n_def)
  from bitlen_bounds_real [OF n(1)]
  have b: "(2::real) ^ (bitlen n - 1) \<le> real n" "real n + 1 \<le> 2 ^ bitlen n" by simp_all
  have p: "0 < bitlen n" using n(1) by (rule bitlen_pos)
  then have e1: "pow2 (ilog2 q) = 2 ^ (bitlen n - 1)"
    unfolding i using pow2_nat [of "bitlen n - 1"] by (simp add: of_nat_diff)
  have e2: "pow2 (ilog2 q + 1) = 2 ^ bitlen n"
    unfolding i using pow2_nat [of "bitlen n"] by simp
  have lo: "pow2 (ilog2 q) \<le> q" unfolding e1 using b(1) n(2) by linarith
  have "q < pow2 (ilog2 q + 1)" unfolding e2 using b(2) n(3) by linarith
  with lo show ?thesis by simp
next
  case False
  define t where "t = 1 / q"
  define n where "n = nat (\<lceil>t\<rceil> - 1)"
  have t1: "1 < t" using False assms by (simp add: t_def)
  have n: "0 < n" "real n < t" "t \<le> real n + 1"
    using t1 by (simp_all add: n_def) (linarith+)?
  have i: "ilog2 q = - int (bitlen n)"
    using False by (simp add: ilog2_def n_def t_def)
  from bitlen_bounds_real [OF n(1)]
  have b: "(2::real) ^ (bitlen n - 1) \<le> real n" "real n + 1 \<le> 2 ^ bitlen n" by simp_all
  have p: "0 < bitlen n" using n(1) by (rule bitlen_pos)
  have e1: "pow2 (ilog2 q) = 1 / 2 ^ bitlen n"
    unfolding i by (simp add: pow2_def)
  have e2: "pow2 (ilog2 q + 1) = 1 / 2 ^ (bitlen n - 1)"
  proof -
    have "ilog2 q + 1 = - int (bitlen n - 1)"
      unfolding i using p by (cases "bitlen n") simp_all
    then show ?thesis by (simp only: pow2_neg_nat)
  qed
  have "t \<le> 2 ^ bitlen n" using b(2) n(3) by linarith
  then have lo: "pow2 (ilog2 q) \<le> q"
    unfolding e1 t_def using assms by (simp add: field_simps)
  have "2 ^ (bitlen n - 1) < t" using b(1) n(2) by linarith
  then have "q < pow2 (ilog2 q + 1)"
    unfolding e2 t_def using assms by (simp add: field_simps)
  with lo show ?thesis by simp
qed

lemma round_half_even_int: "round_half_even (of_int k) = k"
  by (simp add: round_half_even_def)

lemma round_half_even_near: "\<bar>of_int (round_half_even t) - t\<bar> \<le> 1 / 2"
  unfolding round_half_even_def Let_def by (auto; linarith)

lemma round_half_even_mono_int: "t \<le> of_int k \<Longrightarrow> round_half_even t \<le> k"
  unfolding round_half_even_def Let_def by (auto; linarith)

lemma round_half_even_nonneg: "0 \<le> t \<Longrightarrow> 0 \<le> round_half_even t"
  unfolding round_half_even_def Let_def by (auto; linarith)

lemma real_less_2p: "k < 2 ^ n \<Longrightarrow> real k < 2 ^ n"
proof -
  assume "k < 2 ^ n"
  then have "real k < real (2 ^ n)" by (simp only: of_nat_less_iff)
  then show ?thesis by simp
qed

lemma round_double_exact:
  assumes "k < 2 ^ 53" and "- 1074 \<le> e" and "real k * pow2 e < 2 ^ 1024"
  shows "round_double neg (real k * pow2 e) = JFin neg (real k * pow2 e)"
proof (cases "k = 0")
  case True
  then show ?thesis by (simp add: round_double_def)
next
  case False
  define q where "q = real k * pow2 e"
  have qpos: "0 < q" using False pow2_pos [of e] by (simp add: q_def)
  define ex where "ex = max (ilog2 q - 52) (- 1074)"
  have "q < 2 ^ 53 * pow2 e"
    unfolding q_def using real_less_2p [OF assms(1)] pow2_pos [of e] by simp
  also have "\<dots> = pow2 (53 + e)"
    using pow2_nat [of 53] by (simp add: pow2_add)
  finally have "pow2 (ilog2 q) < pow2 (53 + e)"
    using ilog2_bounds [OF qpos] by simp
  then have "ilog2 q < 53 + e" by (rule pow2_less_imp)
  then have le: "ex \<le> e" using assms(2) by (simp add: ex_def)
  have "pow2 (e - ex) = 2 ^ nat (e - ex)" using le by (simp add: pow2_def)
  then have d: "pow2 e / pow2 ex = 2 ^ nat (e - ex)" by (simp only: pow2_diff)
  have "q / pow2 ex = real k * (pow2 e / pow2 ex)" by (simp add: q_def)
  then have "q / pow2 ex = real k * 2 ^ nat (e - ex)" by (simp only: d)
  then have t: "q / pow2 ex = of_int (int k * 2 ^ nat (e - ex))" by simp
  have "of_int (round_half_even (q / pow2 ex)) * pow2 ex = q / pow2 ex * pow2 ex"
    unfolding t round_half_even_int ..
  also have "\<dots> = q" using pow2_pos [of ex] by simp
  finally have r: "of_int (round_half_even (q / pow2 ex)) * pow2 ex = q" .
  have "round_double neg q =
          (if 2 ^ 1024 \<le> of_int (round_half_even (q / pow2 ex)) * pow2 ex then JInf neg
           else JFin neg (of_int (round_half_even (q / pow2 ex)) * pow2 ex))"
    using qpos by (simp add: round_double_def Let_def ex_def)
  then show ?thesis
    unfolding r using assms(3) by (simp add: q_def)
qed

lemma round_double_form:
  assumes "0 \<le> q" and "round_double neg q = JFin s w"
  shows "s = neg \<and> (\<exists>k e. w = real k * pow2 e \<and> k < 2 ^ 53 \<and> - 1074 \<le> e)
         \<and> \<bar>w - q\<bar> \<le> max (q / 2 ^ 53) (1 / 2 ^ 1075)"
proof (cases "q = 0")
  case True
  with assms(2) have "s = neg" "w = 0" by (simp_all add: round_double_def)
  moreover have "(0::real) = real 0 * pow2 0 \<and> (0::nat) < 2 ^ 53 \<and> - 1074 \<le> (0::int)" by simp
  ultimately show ?thesis using True by (intro conjI exI [of _ 0] exI [of _ "0::int"]) simp_all
next
  case False
  with assms(1) have qpos: "0 < q" by simp
  define ex where "ex = max (ilog2 q - 52) (- 1074)"
  define t where "t = q / pow2 ex"
  define K where "K = round_half_even t"
  have rd: "round_double neg q =
          (if 2 ^ 1024 \<le> of_int K * pow2 ex then JInf neg else JFin neg (of_int K * pow2 ex))"
    using False by (simp add: round_double_def Let_def ex_def t_def K_def)
  with assms(2) have sw: "s = neg" "w = of_int K * pow2 ex"
    by (simp_all split: if_splits)
  have q_t: "q = t * pow2 ex" using pow2_pos [of ex] by (simp add: t_def)
  have "ilog2 q + 1 \<le> ex + 53" by (simp add: ex_def)
  then have "pow2 (ilog2 q + 1) \<le> pow2 (ex + 53)" by (rule pow2_mono)
  also have "\<dots> = pow2 ex * 2 ^ 53" using pow2_nat [of 53] by (simp add: pow2_add)
  finally have "q < pow2 ex * 2 ^ 53" using ilog2_bounds [OF qpos] by simp
  then have tlt: "t < 2 ^ 53" using pow2_pos [of ex] by (simp add: t_def field_simps)
  have "0 \<le> t" using qpos pow2_pos [of ex] by (simp add: t_def)
  then have K0: "0 \<le> K" unfolding K_def by (rule round_half_even_nonneg)
  have "t \<le> of_int (2 ^ 53)" using tlt by simp
  then have K1: "K \<le> 2 ^ 53" unfolding K_def by (rule round_half_even_mono_int)
  have form: "\<exists>k e. w = real k * pow2 e \<and> k < 2 ^ 53 \<and> - 1074 \<le> e"
  proof (cases "K < 2 ^ 53")
    case True
    have "w = real (nat K) * pow2 ex" using K0 by (simp add: sw)
    moreover have "nat K < 2 ^ 53" using True K0 by (simp add: nat_less_iff)
    moreover have "- 1074 \<le> ex" by (simp add: ex_def)
    ultimately show ?thesis by blast
  next
    case False
    with K1 have "K = 2 ^ 53" by simp
    then have "w = real (2 ^ 52) * pow2 (ex + 1)"
      using pow2_nat [of 1] by (simp add: sw pow2_add)
    moreover have "(2::nat) ^ 52 < 2 ^ 53" by simp
    moreover have "- 1074 \<le> ex + 1" by (simp add: ex_def)
    ultimately show ?thesis by blast
  qed
  have "\<bar>w - q\<bar> = \<bar>of_int K - t\<bar> * pow2 ex"
    using pow2_pos [of ex] by (simp add: sw q_t abs_mult left_diff_distrib [symmetric])
  also have "\<dots> \<le> 1 / 2 * pow2 ex"
    using round_half_even_near [of t] pow2_pos [of ex]
    by (intro mult_right_mono) (simp_all add: K_def)
  finally have near: "\<bar>w - q\<bar> \<le> pow2 ex / 2" by simp
  have "pow2 ex / 2 \<le> max (q / 2 ^ 53) (1 / 2 ^ 1075)"
  proof (cases "- 1074 \<le> ilog2 q - 52")
    case True
    then have "ex = ilog2 q - 52" by (simp add: ex_def)
    then have "pow2 ex = pow2 (ilog2 q) / 2 ^ 52"
      using pow2_nat [of 52] by (simp add: pow2_diff)
    then have "pow2 ex / 2 = pow2 (ilog2 q) / 2 ^ 53" by simp
    also have "\<dots> \<le> q / 2 ^ 53"
      using ilog2_bounds [OF qpos] by (simp add: divide_right_mono)
    finally show ?thesis by simp
  next
    case False
    then have "ex = - 1074" by (simp add: ex_def)
    then have "pow2 ex / 2 = 1 / 2 ^ 1075" by (simp add: pow2_def)
    then show ?thesis by simp
  qed
  with near have "\<bar>w - q\<bar> \<le> max (q / 2 ^ 53) (1 / 2 ^ 1075)" by linarith
  with sw(1) form show ?thesis by simp
qed

subsection \<open>The distance of a binary64 value from its nearest integer\<close>

text \<open>
  \<^verbatim>\<open>Math.round(w) - w\<close> is computed without a rounding error: the difference is a
  binary64 value again.
\<close>

lemma round_diff_form:
  assumes "k < 2 ^ 53" and "- 1074 \<le> e" and "w = real k * pow2 e"
  shows "\<exists>j e'. \<bar>of_int \<lfloor>signed s w + 1 / 2\<rfloor> - signed s w\<bar> = real j * pow2 e'
                 \<and> j < 2 ^ 53 \<and> - 1074 \<le> e'"
proof -
  define sw where "sw = signed s w"
  define r where "r = \<lfloor>sw + 1 / 2\<rfloor>"
  define v where "v = of_int r - sw"
  have vh: "\<bar>v\<bar> \<le> 1 / 2" unfolding v_def r_def by linarith
  have goal: "(\<exists>j e'. \<bar>v\<bar> = real j * pow2 e' \<and> j < 2 ^ 53 \<and> - 1074 \<le> e')"
  proof (cases "0 \<le> e")
    case True
    then have "w = of_int (int k * 2 ^ nat e)" by (simp add: assms(3) pow2_def)
    then have "sw = of_int (if s then - (int k * 2 ^ nat e) else int k * 2 ^ nat e)"
      by (simp add: sw_def signed_def)
    then obtain z :: int where z: "sw = of_int z" ..
    have "r = z" unfolding r_def z by linarith
    then have "\<bar>v\<bar> = real 0 * pow2 0" by (simp add: v_def z)
    moreover have "(0::nat) < 2 ^ 53" by simp
    moreover have "- 1074 \<le> (0::int)" by simp
    ultimately show ?thesis by blast
  next
    case False
    show ?thesis
    proof (cases "- 53 \<le> e")
      case True
      define n where "n = nat (- e)"
      have n: "n \<le> 53" "e = - int n" using True False by (simp_all add: n_def)
      have pe: "pow2 e = 1 / 2 ^ n" unfolding n(2) by (rule pow2_neg_nat)
      define z where "z = (if s then - int k else int k)"
      have swz: "sw = of_int z / 2 ^ n"
        by (simp add: sw_def signed_def assms(3) pe z_def)
      have "v = of_int (r * 2 ^ n - z) / 2 ^ n"
        by (simp add: v_def swz field_simps)
      then have av: "\<bar>v\<bar> = real (nat \<bar>r * 2 ^ n - z\<bar>) * pow2 e"
        by (simp add: pe abs_divide)
      have "real (nat \<bar>r * 2 ^ n - z\<bar>) = \<bar>v\<bar> * 2 ^ n"
        unfolding av pe by simp
      also have "\<dots> \<le> 1 / 2 * 2 ^ n"
        using vh by (intro mult_right_mono) simp_all
      also have "\<dots> \<le> 1 / 2 * 2 ^ 53"
        using n(1) by (intro mult_left_mono power_increasing) simp_all
      also have "\<dots> < real (2 ^ 53)" by simp
      finally have "nat \<bar>r * 2 ^ n - z\<bar> < 2 ^ 53" by (simp only: of_nat_less_iff)
      with av assms(2) show ?thesis by blast
    next
      case False
      then have "53 + e \<le> - 1" by simp
      then have "pow2 (53 + e) \<le> pow2 (- 1)" by (rule pow2_mono)
      moreover have "pow2 (53 + e) = 2 ^ 53 * pow2 e"
        using pow2_nat [of 53] by (simp add: pow2_add)
      moreover have "pow2 (- 1) = 1 / 2" by (simp add: pow2_def)
      ultimately have "2 ^ 53 * pow2 e \<le> 1 / 2" by (simp only:)
      moreover have "w < 2 ^ 53 * pow2 e"
        unfolding assms(3) using real_less_2p [OF assms(1)] pow2_pos [of e] by simp
      moreover have "0 \<le> w" unfolding assms(3) using pow2_pos [of e] by simp
      ultimately have w: "0 \<le> w" "w < 1 / 2" by simp_all
      then have "r = 0" unfolding r_def sw_def signed_def by (auto; linarith)
      then have "\<bar>v\<bar> = w" using w by (simp add: v_def sw_def signed_def)
      with assms show ?thesis by blast
    qed
  qed
  then show ?thesis by (simp only: v_def r_def sw_def)
qed

lemma Math_round_value:
  "Math_round (JFin a m) =
     JFin (if \<lfloor>signed a m + 1 / 2\<rfloor> = 0 then a else \<lfloor>signed a m + 1 / 2\<rfloor> < 0)
          (of_int \<bar>\<lfloor>signed a m + 1 / 2\<rfloor>\<bar>)"
  by (simp add: Let_def)

lemma signed_Math_round:
  "signed (if \<lfloor>signed a m + 1 / 2\<rfloor> = 0 then a else \<lfloor>signed a m + 1 / 2\<rfloor> < 0)
          (of_int \<bar>\<lfloor>signed a m + 1 / 2\<rfloor>\<bar>) = of_int \<lfloor>signed a m + 1 / 2\<rfloor>"
  by (simp add: signed_def)

lemma round_loss_exact:
  assumes "k < 2 ^ 53" and "- 1074 \<le> e" and "w = real k * pow2 e"
  shows "Math_abs (js_sub (Math_round (JFin s w)) (JFin s w))
           = JFin False \<bar>of_int \<lfloor>signed s w + 1 / 2\<rfloor> - signed s w\<bar>"
proof -
  define v where "v = of_int \<lfloor>signed s w + 1 / 2\<rfloor> - signed s w"
  have vh: "\<bar>v\<bar> \<le> 1 / 2" unfolding v_def by linarith
  from round_diff_form [OF assms, of s] obtain j e'
    where j: "\<bar>v\<bar> = real j * pow2 e'" "j < 2 ^ 53" "- 1074 \<le> e'"
    unfolding v_def by blast
  have "real j * pow2 e' < 2 ^ 1024" using vh unfolding j(1) [symmetric] by simp
  from round_double_exact [OF j(2) j(3) this, of "v < 0"]
  have ex: "round_double (v < 0) \<bar>v\<bar> = JFin (v < 0) \<bar>v\<bar>" by (simp only: j(1))
  have "js_sub (Math_round (JFin s w)) (JFin s w)
          = (if v = 0 then JFin ((if \<lfloor>signed s w + 1 / 2\<rfloor> = 0 then s
                                  else \<lfloor>signed s w + 1 / 2\<rfloor> < 0) \<and> \<not> s) 0
             else round_double (v < 0) \<bar>v\<bar>)"
    unfolding Math_round_value js_sub.simps signed_Math_round Let_def v_def ..
  then show ?thesis
    unfolding ex v_def [symmetric] by (cases "v = 0") simp_all
qed

lemma Math_pow10_8: "Math_pow10 8 = JFin False (10 ^ 8)"
  by (simp add: Math_pow10_def num_ev)

lemma Math_pow10_6: "Math_pow10 6 = JFin False (10 ^ 6)"
  by (simp add: Math_pow10_def num_ev)

lemma lit_1e_3: "js_lit (1 / 10 ^ 3) = JFin False (1152921504606847 / 1152921504606846976)"
  by (simp add: num_ev)

lemma floatToInt_finite:
  assumes "0 \<le> m" and "Math_pow10 p = JFin False (10 ^ p)"
      and "js_mul (JFin s m) (JFin False (10 ^ p)) = JFin s' w"
  shows "s' = s
     \<and> \<bar>w - m * 10 ^ p\<bar> \<le> max (m * 10 ^ p / 2 ^ 53) (1 / 2 ^ 1075)
     \<and> floatToInt (JFin s m) p =
         (if 1152921504606847 / 1152921504606846976
               \<le> \<bar>of_int \<lfloor>signed s w + 1 / 2\<rfloor> - signed s w\<bar>
          then Inl FloatToIntRounding
          else Inr (JFin (if \<lfloor>signed s w + 1 / 2\<rfloor> = 0 then s
                          else \<lfloor>signed s w + 1 / 2\<rfloor> < 0)
                         (of_int \<bar>\<lfloor>signed s w + 1 / 2\<rfloor>\<bar>)))"
proof -
  have rd: "round_double s (m * 10 ^ p) = JFin s' w" using assms(3) by simp
  have q: "0 \<le> m * 10 ^ p" using assms(1) by simp
  from round_double_form [OF q rd]
  obtain k e where f: "s' = s" "w = real k * pow2 e" "k < 2 ^ 53" "- 1074 \<le> e"
    and near: "\<bar>w - m * 10 ^ p\<bar> \<le> max (m * 10 ^ p / 2 ^ 53) (1 / 2 ^ 1075)"
    by blast
  have wd: "js_mul (JFin s m) (Math_pow10 p) = JFin s w"
    using assms(2,3) f(1) by simp
  note loss = round_loss_exact [OF f(3) f(4) f(2), of s]
  have "floatToInt (JFin s m) p =
         (if js_ge (Math_abs (js_sub (Math_round (JFin s w)) (JFin s w))) (js_lit (1 / 10 ^ 3))
          then Inl FloatToIntRounding
          else Inr (Math_round (JFin s w)))"
    by (simp only: floatToInt_def wd Let_def)
  also have "\<dots> =
         (if js_ge (JFin False \<bar>of_int \<lfloor>signed s w + 1 / 2\<rfloor> - signed s w\<bar>)
                   (JFin False (1152921504606847 / 1152921504606846976))
          then Inl FloatToIntRounding
          else Inr (Math_round (JFin s w)))"
    by (simp only: loss lit_1e_3)
  also have "\<dots> =
         (if 1152921504606847 / 1152921504606846976
               \<le> \<bar>of_int \<lfloor>signed s w + 1 / 2\<rfloor> - signed s w\<bar>
          then Inl FloatToIntRounding
          else Inr (JFin (if \<lfloor>signed s w + 1 / 2\<rfloor> = 0 then s
                          else \<lfloor>signed s w + 1 / 2\<rfloor> < 0)
                         (of_int \<bar>\<lfloor>signed s w + 1 / 2\<rfloor>\<bar>)))"
    unfolding Math_round_value js_ge.simps by (simp only: signed_def if_False)
  finally have "floatToInt (JFin s m) p =
         (if 1152921504606847 / 1152921504606846976
               \<le> \<bar>of_int \<lfloor>signed s w + 1 / 2\<rfloor> - signed s w\<bar>
          then Inl FloatToIntRounding
          else Inr (JFin (if \<lfloor>signed s w + 1 / 2\<rfloor> = 0 then s
                          else \<lfloor>signed s w + 1 / 2\<rfloor> < 0)
                         (of_int \<bar>\<lfloor>signed s w + 1 / 2\<rfloor>\<bar>)))" .
  with f(1) near show ?thesis by simp
qed

subsection \<open>The encoders\<close>

lemma floatToInt_not_finite:
  "floatToInt JNaN p = Inr JNaN"
  "floatToInt (JInf a) 8 = Inr (JInf a)"
  "floatToInt (JInf a) 6 = Inr (JInf a)"
  "js_mul (JFin s m) (Math_pow10 p) = JInf s' \<Longrightarrow> floatToInt (JFin s m) p = Inr (JInf s')"
  by (simp_all add: floatToInt_def Math_pow10_8 Math_pow10_6 Let_def)

lemma big_prod_lit: "js_lit (20000012345678 / 10 ^ 8) = JFin False (6871951915542661 / 34359738368)"
  by (simp add: num_ev)

lemma big_prod_mul:
  "js_mul (JFin False (6871951915542661 / 34359738368)) (JFin False (10 ^ 8))
     = JFin False 20000012345678"
  by (simp add: num_ev)

lemma big_prod_round: "Math_round (JFin False 20000012345678) = JFin False 20000012345678"
  by (simp add: signed_def)

lemma big_prod_loss:
  "\<not> js_ge (Math_abs (js_sub (JFin False 20000012345678) (JFin False 20000012345678)))
           (js_lit (1 / 10 ^ 3))"
  unfolding lit_1e_3 by (simp add: signed_def)

text \<open>
  C9, as stated: for every number the two encoders return the number times \<open>10 ^ 8\<close> or
  \<open>10 ^ 6\<close> rounded to the nearest integer, and fail exactly when the rounded value is
  \<^verbatim>\<open>1e-3\<close> or more away from the scaled value.  The product is a binary64 value, rounded
  before the encoder looks at it: for the number written 200000.12345678 the product is
  20000012345678 exactly and no error is raised, while the number times \<open>10 ^ 8\<close> is more
  than \<open>1 / 10 ^ 3\<close> away from that integer.  For NaN the result is NaN, which is no
  integer.
\<close>

theorem floatToInt_rounded_product:
  "js_lit (20000012345678 / 10 ^ 8) = JFin False (6871951915542661 / 34359738368)
   \<and> floatToIntForHashing (JFin False (6871951915542661 / 34359738368))
       = Inr (JFin False 20000012345678)
   \<and> 1 / 10 ^ 3 \<le> \<bar>20000012345678 - 6871951915542661 / 34359738368 * (10 ^ 8 :: real)\<bar>
   \<and> floatToIntForHashing JNaN = Inr JNaN"
proof -
  have "floatToIntForHashing (JFin False (6871951915542661 / 34359738368))
       = Inr (JFin False 20000012345678)"
    unfolding floatToIntForHashing_def floatToInt_def Math_pow10_8 big_prod_mul Let_def
      big_prod_round
    using big_prod_loss by simp
  moreover have "floatToIntForHashing JNaN = Inr JNaN"
    by (simp add: floatToIntForHashing_def floatToInt_not_finite)
  moreover have "1 / 10 ^ 3 \<le> \<bar>20000012345678 - 6871951915542661 / 34359738368 * (10 ^ 8 :: real)\<bar>"
    by simp
  ultimately show ?thesis using big_prod_lit by simp
qed

text \<open>
  C9, amended.  Let \<open>w\<close> be the product of a finite number and \<open>10 ^ 8\<close> (for
  \<^verbatim>\<open>floatToIntForHashing\<close>) or \<open>10 ^ 6\<close> (for \<^verbatim>\<open>floatToUsdInt\<close>) as the binary64
  multiplication gives it, and let it be finite: it has the sign of the number and is the
  exact product up to the relative error \<open>2 ^ -53\<close> (up to \<open>2 ^ -1075\<close> for the
  smallest).  The encoder fails with the rounding error exactly when \<open>\<lfloor>w + 1 / 2\<rfloor>\<close>, the
  integer nearest to \<open>w\<close>, is at least the binary64 value of \<^verbatim>\<open>1e-3\<close> away from \<open>w\<close>, and
  returns that integer otherwise (a zero with the sign of the number).  When the product
  overflows the encoder returns the infinity, and it returns NaN and the infinities as
  they are, all without an error.
\<close>

theorem floatToInt_scaled:
  assumes "0 \<le> m"
  shows
    "(js_mul (JFin s m) (Math_pow10 8) = JFin s' w \<longrightarrow>
        s' = s
        \<and> \<bar>w - m * 10 ^ 8\<bar> \<le> max (m * 10 ^ 8 / 2 ^ 53) (1 / 2 ^ 1075)
        \<and> floatToIntForHashing (JFin s m) =
            (if 1152921504606847 / 1152921504606846976
                  \<le> \<bar>of_int \<lfloor>signed s w + 1 / 2\<rfloor> - signed s w\<bar>
             then Inl FloatToIntRounding
             else Inr (JFin (if \<lfloor>signed s w + 1 / 2\<rfloor> = 0 then s
                             else \<lfloor>signed s w + 1 / 2\<rfloor> < 0)
                            (of_int \<bar>\<lfloor>signed s w + 1 / 2\<rfloor>\<bar>))))
     \<and> (js_mul (JFin s m) (Math_pow10 6) = JFin s' w \<longrightarrow>
        s' = s
        \<and> \<bar>w - m * 10 ^ 6\<bar> \<le> max (m * 10 ^ 6 / 2 ^ 53) (1 / 2 ^ 1075)
        \<and> floatToUsdInt (JFin s m) =
            (if 1152921504606847 / 1152921504606846976
                  \<le> \<bar>of_int \<lfloor>signed s w + 1 / 2\<rfloor> - signed s w\<bar>
             then Inl FloatToIntRounding
             else Inr (JFin (if \<lfloor>signed s w + 1 / 2\<rfloor> = 0 then s
                             else \<lfloor>signed s w + 1 / 2\<rfloor> < 0)
                            (of_int \<bar>\<lfloor>signed s w + 1 / 2\<rfloor>\<bar>))))
     \<and> (js_mul (JFin s m) (Math_pow10 8) = JInf s' \<longrightarrow>
          floatToIntForHashing (JFin s m) = Inr (JInf s'))
     \<and> (js_mul (JFin s m) (Math_pow10 6) = JInf s' \<longrightarrow>
          floatToUsdInt (JFin s m) = Inr (JInf s'))
     \<and> js_mul (JFin s m) (Math_pow10 8) \<noteq> JNaN
     \<and> js_mul (JFin s m) (Math_pow10 6) \<noteq> JNaN
     \<and> floatToIntForHashing JNaN = Inr JNaN \<and> floatToUsdInt JNaN = Inr JNaN
     \<and> floatToIntForHashing (JInf s) = Inr (JInf s) \<and> floatToUsdInt (JInf s) = Inr (JInf s)"
proof -
  have a: "s' = s
        \<and> \<bar>w - m * 10 ^ 8\<bar> \<le> max (m * 10 ^ 8 / 2 ^ 53) (1 / 2 ^ 1075)
        \<and> floatToIntForHashing (JFin s m) =
            (if 1152921504606847 / 1152921504606846976
                  \<le> \<bar>of_int \<lfloor>signed s w + 1 / 2\<rfloor> - signed s w\<bar>
             then Inl FloatToIntRounding
             else Inr (JFin (if \<lfloor>signed s w + 1 / 2\<rfloor> = 0 then s
                             else \<lfloor>signed s w + 1 / 2\<rfloor> < 0)
                            (of_int \<bar>\<lfloor>signed s w + 1 / 2\<rfloor>\<bar>)))"
    if "js_mul (JFin s m) (Math_pow10 8) = JFin s' w"
    unfolding floatToIntForHashing_def
    using floatToInt_finite [OF assms Math_pow10_8 that [unfolded Math_pow10_8]] .
  have b: "s' = s
        \<and> \<bar>w - m * 10 ^ 6\<bar> \<le> max (m * 10 ^ 6 / 2 ^ 53) (1 / 2 ^ 1075)
        \<and> floatToUsdInt (JFin s m) =
            (if 1152921504606847 / 1152921504606846976
                  \<le> \<bar>of_int \<lfloor>signed s w + 1 / 2\<rfloor> - signed s w\<bar>
             then Inl FloatToIntRounding
             else Inr (JFin (if \<lfloor>signed s w + 1 / 2\<rfloor> = 0 then s
                             else \<lfloor>signed s w + 1 / 2\<rfloor> < 0)
                            (of_int \<bar>\<lfloor>signed s w + 1 / 2\<rfloor>\<bar>)))"
    if "js_mul (JFin s m) (Math_pow10 6) = JFin s' w"
    unfolding floatToUsdInt_def
    using floatToInt_finite [OF assms Math_pow10_6 that [unfolded Math_pow10_6]] .
  have c: "floatToIntForHashing (JFin s m) = Inr (JInf s')"
    if "js_mul (JFin s m) (Math_pow10 8) = JInf s'"
    unfolding floatToIntForHashing_def using that by (rule floatToInt_not_finite(4))
  have d: "floatToUsdInt (JFin s m) = Inr (JInf s')"
    if "js_mul (JFin s m) (Math_pow10 6) = JInf s'"
    unfolding floatToUsdInt_def using that by (rule floatToInt_not_finite(4))
  have e: "js_mul (JFin s m) (Math_pow10 8) \<noteq> JNaN" "js_mul (JFin s m) (Math_pow10 6) \<noteq> JNaN"
    by (simp_all add: Math_pow10_8 Math_pow10_6 round_double_def Let_def)
  have f: "floatToIntForHashing JNaN = Inr JNaN" "floatToUsdInt JNaN = Inr JNaN"
      "floatToIntForHashing (JInf s) = Inr (JInf s)" "floatToUsdInt (JInf s) = Inr (JInf s)"
    by (simp_all add: floatToIntForHashing_def floatToUsdInt_def floatToInt_not_finite)
  from a b c d e f show ?thesis by blast
qed

lemma usd_lit: "js_lit (1234567 / 10 ^ 6) = JFin False (5559995481163911 / 4503599627370496)"
  by (simp add: num_ev)

lemma usd_mul:
  "js_mul (JFin s (5559995481163911 / 4503599627370496)) (JFin False (10 ^ 6))
     = JFin s 1234567"
  by (simp add: num_ev)

lemma usd7_lit: "js_lit (12345678 / 10 ^ 7) = JFin False (5559999084043613 / 4503599627370496)"
  by (simp add: num_ev)

lemma usd7_mul:
  "js_mul (JFin False (5559999084043613 / 4503599627370496)) (JFin False (10 ^ 6))
     = JFin False (5302428325694669 / 4294967296)"
  by (simp add: num_ev)

lemma usd4_lit: "js_lit (12345674 / 10 ^ 7) = JFin False (2779998641301881 / 2251799813685248)"
  by (simp add: num_ev)

lemma usd4_mul:
  "js_mul (JFin s (2779998641301881 / 2251799813685248)) (JFin False (10 ^ 6))
     = JFin s (2651213303853875 / 2147483648)"
  by (simp add: num_ev)

theorem floatToInt_scaled_witness:
  "floatToUsdInt (js_lit (1234567 / 10 ^ 6)) = Inr (JFin False 1234567)
   \<and> floatToUsdInt (js_lit (12345678 / 10 ^ 7)) = Inl FloatToIntRounding
   \<and> floatToUsdInt (js_lit (12345674 / 10 ^ 7)) = Inl FloatToIntRounding
   \<and> floatToUsdInt (JFin True (5559995481163911 / 4503599627370496)) = Inr (JFin True 1234567)
   \<and> floatToUsdInt (JFin True (2779998641301881 / 2251799813685248)) = Inl FloatToIntRounding
   \<and> floatToIntForHashing JNaN = Inr JNaN"
proof -
  have a: "floatToUsdInt (js_lit (1234567 / 10 ^ 6)) = Inr (JFin False 1234567)"
    using floatToInt_scaled [of "5559995481163911 / 4503599627370496" False False 1234567]
    unfolding usd_lit Math_pow10_6 usd_mul by (simp add: signed_def)
  have b: "floatToUsdInt (js_lit (12345678 / 10 ^ 7)) = Inl FloatToIntRounding"
    using floatToInt_scaled [of "5559999084043613 / 4503599627370496" False False
                                "5302428325694669 / 4294967296"]
    unfolding usd7_lit Math_pow10_6 usd7_mul by (simp add: signed_def)
  have c: "floatToUsdInt (js_lit (12345674 / 10 ^ 7)) = Inl FloatToIntRounding"
    using floatToInt_scaled [of "2779998641301881 / 2251799813685248" False False
                                "2651213303853875 / 2147483648"]
    unfolding usd4_lit Math_pow10_6 usd4_mul by (simp add: signed_def)
  have d: "floatToUsdInt (JFin True (5559995481163911 / 4503599627370496)) = Inr (JFin True 1234567)"
    using floatToInt_scaled [of "5559995481163911 / 4503599627370496" True True 1234567]
    unfolding Math_pow10_6 usd_mul by (simp add: signed_def)
  have e: "floatToUsdInt (JFin True (2779998641301881 / 2251799813685248)) = Inl FloatToIntRounding"
    using floatToInt_scaled [of "2779998641301881 / 2251799813685248" True True
                                "2651213303853875 / 2147483648"]
    unfolding Math_pow10_6 usd4_mul by (simp add: signed_def)
  have f: "floatToIntForHashing JNaN = Inr JNaN"
    using floatToInt_scaled [of 0 False False 0] by simp
  from a b c d e f show ?thesis by simp
qed

end
